theory Spec2Isabelle
  imports Main
begin

section \<open>Strings of the host language\<close>

text \<open>
  Note texts, paths and names are \<^typ>\<open>string\<close>s. A string of the program is held as its
  UTF-8 encoding, one character per byte (the day names of \<^verbatim>\<open>convertDay\<close> are written
  that way); on well-formed text, searching and splitting at bytes is searching and
  splitting at code units. The functions below are the string methods \<^verbatim>\<open>main.ts\<close> calls:
  \<^verbatim>\<open>trim\<close>, \<^verbatim>\<open>split\<close>, \<^verbatim>\<open>join\<close>, \<^verbatim>\<open>includes\<close>, \<^verbatim>\<open>startsWith\<close> and \<^verbatim>\<open>length\<close>.
\<close>

definition newline :: char where
  "newline = CHR 0x0A"

definition backslash :: char where
  "backslash = CHR 0x5C"

definition startsWith :: "string \<Rightarrow> string \<Rightarrow> bool" where
  \<comment> \<open>\<^verbatim>\<open>s.startsWith(p)\<close>, the searched prefix first\<close>
  "startsWith p s = (take (length p) s = p)"

text \<open>
  \<^verbatim>\<open>String.prototype.trim\<close> strips the WhiteSpace and LineTerminator code points of
  ECMAScript from both ends. \<open>whiteSpace\<close> lists them, each as its encoding: U+0009 to
  U+000D, U+0020, U+00A0, U+1680, U+2000 to U+200A, U+2028, U+2029, U+202F, U+205F,
  U+3000 and U+FEFF. \<open>whiteSpaceAt\<close> is the length of the white space code point a string
  begins with, 0 when it begins with none.
\<close>

definition whiteSpace :: "string list" where
  "whiteSpace =
     [[CHR 0x09], [CHR 0x0A], [CHR 0x0B], [CHR 0x0C], [CHR 0x0D], [CHR 0x20],
      [CHR 0xC2, CHR 0xA0],
      [CHR 0xE1, CHR 0x9A, CHR 0x80],
      [CHR 0xE2, CHR 0x80, CHR 0x80], [CHR 0xE2, CHR 0x80, CHR 0x81],
      [CHR 0xE2, CHR 0x80, CHR 0x82], [CHR 0xE2, CHR 0x80, CHR 0x83],
      [CHR 0xE2, CHR 0x80, CHR 0x84], [CHR 0xE2, CHR 0x80, CHR 0x85],
      [CHR 0xE2, CHR 0x80, CHR 0x86], [CHR 0xE2, CHR 0x80, CHR 0x87],
      [CHR 0xE2, CHR 0x80, CHR 0x88], [CHR 0xE2, CHR 0x80, CHR 0x89],
      [CHR 0xE2, CHR 0x80, CHR 0x8A],
      [CHR 0xE2, CHR 0x80, CHR 0xA8], [CHR 0xE2, CHR 0x80, CHR 0xA9],
      [CHR 0xE2, CHR 0x80, CHR 0xAF],
      [CHR 0xE2, CHR 0x81, CHR 0x9F],
      [CHR 0xE3, CHR 0x80, CHR 0x80],
      [CHR 0xEF, CHR 0xBB, CHR 0xBF]]"

definition whiteSpaceAt :: "string list \<Rightarrow> string \<Rightarrow> nat" where
  "whiteSpaceAt ws s = (case find (\<lambda>w. startsWith w s) ws of None \<Rightarrow> 0 | Some w \<Rightarrow> length w)"

fun strip :: "string list \<Rightarrow> string \<Rightarrow> string" where
  "strip ws [] = []"
| "strip ws (c # s) =
     (case whiteSpaceAt ws (c # s) of 0 \<Rightarrow> c # s | Suc n \<Rightarrow> strip ws (drop n s))"

definition trim :: "string \<Rightarrow> string" where
  \<comment> \<open>from the start, then from the end, where the code points are read backwards\<close>
  "trim s = rev (strip (map rev whiteSpace) (rev (strip whiteSpace s)))"

text \<open>
  \<^verbatim>\<open>s.length\<close> counts UTF-16 code units: one for a code point of up to three bytes, two
  for one of four bytes.
\<close>

definition utf16Length :: "string \<Rightarrow> nat" where
  "utf16Length s =
     length (filter (\<lambda>c. (of_char c :: nat) < 0x80 \<or> 0xC0 \<le> (of_char c :: nat)) s)
     + length (filter (\<lambda>c. 0xF0 \<le> (of_char c :: nat)) s)"

text \<open>\<^verbatim>\<open>s.split(c)\<close> for a one-character separator: never the empty list.\<close>

fun splitOn :: "char \<Rightarrow> string \<Rightarrow> string list" where
  "splitOn c [] = [[]]"
| "splitOn c (x # xs) =
     (if x = c then [] # splitOn c xs
      else (let r = splitOn c xs in (x # hd r) # tl r))"

text \<open>\<^verbatim>\<open>parts.join(sep)\<close>.\<close>

fun joinWith :: "string \<Rightarrow> string list \<Rightarrow> string" where
  "joinWith sep [] = []"
| "joinWith sep [x] = x"
| "joinWith sep (x # y # ys) = x @ sep @ joinWith sep (y # ys)"

fun str_includes :: "string \<Rightarrow> string \<Rightarrow> bool" where
  \<comment> \<open>\<^verbatim>\<open>s.includes(sub)\<close>, the searched substring first\<close>
  "str_includes sub [] = (sub = [])"
| "str_includes sub (x # xs) = (startsWith sub (x # xs) \<or> str_includes sub xs)"

abbreviation lines_of :: "string \<Rightarrow> string list" where
  "lines_of text \<equiv> splitOn newline text"

abbreviation unlines :: "string list \<Rightarrow> string" where
  "unlines ls \<equiv> joinWith [newline] ls"

section \<open>The vault\<close>

text \<open>
  The host identifies a file or folder by its vault path, and so does the model: a node
  \<^emph>\<open>is\<close> its path. The host keeps \<^verbatim>\<open>node.path = node.parent.path + "/" + node.name\<close>
  below the top level; the root folder has path \<^verbatim>\<open>/\<close>, an empty name and no parent, and
  a top-level node has the root as parent and its name as path. So \<^verbatim>\<open>name\<close> and
  \<^verbatim>\<open>parent\<close> are functions of the path. What a file carries besides (base name,
  extension, creation time, text, front-matter of the metadata cache) is a record.
  Front-matter values are strings or lists of strings.
\<close>

datatype fmval = FmStr string | FmArr "string list"

record FileStats =
  ctime :: int

record TFile =
  basename :: string
  extension :: string
  stat :: FileStats
  content :: string
  frontmatter :: "(string \<times> fmval) list option"

datatype TAbstractFile = AFile TFile | AFolder

type_synonym vault = "(string \<times> TAbstractFile) list"

definition name_of :: "string \<Rightarrow> string" where
  "name_of p = rev (takeWhile (\<lambda>c. c \<noteq> CHR ''/'') (rev p))"

definition dirname :: "string \<Rightarrow> string" where
  "dirname p =
     (if CHR ''/'' \<in> set p then rev (tl (dropWhile (\<lambda>c. c \<noteq> CHR ''/'') (rev p)))
      else ''/'')"

definition isRoot :: "string \<Rightarrow> bool" where
  "isRoot p = (p = ''/'')"

definition parent :: "string \<Rightarrow> string option" where
  \<comment> \<open>\<^verbatim>\<open>folder.parent\<close>, \<open>None\<close> for \<^verbatim>\<open>null\<close>\<close>
  "parent p = (if isRoot p then None else Some (dirname p))"

definition depth :: "string \<Rightarrow> nat" where
  "depth p = (if isRoot p then 0 else Suc (count_list p (CHR ''/'')))"

definition getAbstractFileByPath :: "vault \<Rightarrow> string \<Rightarrow> TAbstractFile option" where
  "getAbstractFileByPath v p = map_of v p"

definition children_of :: "vault \<Rightarrow> string \<Rightarrow> (string \<times> TAbstractFile) list" where
  \<comment> \<open>\<^verbatim>\<open>folder.children\<close>, in the order the host keeps them\<close>
  "children_of v folder = filter (\<lambda>c. parent (fst c) = Some folder) v"

definition modify :: "vault \<Rightarrow> string \<Rightarrow> string \<Rightarrow> vault" where
  \<comment> \<open>\<^verbatim>\<open>vault.modify(file, text)\<close>\<close>
  "modify v p txt =
     map (\<lambda>(q, n). if q = p
            then (q, case n of AFile f \<Rightarrow> AFile (f\<lparr>content := txt\<rparr>) | AFolder \<Rightarrow> AFolder)
            else (q, n)) v"

text \<open>\<^verbatim>\<open>xs.splice(start, deleteCount, ...items)\<close> for \<open>start\<close> within the list.\<close>

definition splice :: "'a list \<Rightarrow> nat \<Rightarrow> nat \<Rightarrow> 'a list \<Rightarrow> 'a list" where
  "splice xs start deleteCount items = take start xs @ items @ drop (start + deleteCount) xs"

section \<open>Settings and the host\<close>

text \<open>\<^verbatim>\<open>FolderNoteType.InsideFolder\<close>; the setting itself is a free string.\<close>

definition InsideFolder :: string where
  "InsideFolder = ''INSIDE_FOLDER''"

datatype WaypointType = Waypoint | Landmark

definition typeName :: "WaypointType \<Rightarrow> string" where
  \<comment> \<open>the string value of the enum member\<close>
  "typeName t = (case t of Waypoint \<Rightarrow> ''waypoint'' | Landmark \<Rightarrow> ''landmark'')"

record WaypointSettings =
  waypointFlag :: string
  landmarkFlag :: string
  stopScanAtFolderNotes :: bool
  showFolderNotes :: bool
  showNonMarkdownFiles :: bool
  debugLogging :: bool
  useWikiLinks :: bool
  useFrontMatterTitle :: bool
  showEnclosingNote :: bool
  folderNoteType :: string
  folderNoteName :: string
  ignorePaths :: "string list"
  useSpaces :: bool
  numSpaces :: int

definition DEFAULT_SETTINGS :: WaypointSettings where
  "DEFAULT_SETTINGS = \<lparr>
     waypointFlag = ''%% Waypoint %%'',
     landmarkFlag = ''%% Landmark %%'',
     stopScanAtFolderNotes = False,
     showFolderNotes = False,
     showNonMarkdownFiles = False,
     debugLogging = False,
     useWikiLinks = True,
     useFrontMatterTitle = False,
     showEnclosingNote = False,
     folderNoteType = InsideFolder,
     folderNoteName = '''',
     ignorePaths = [''_attachments''],
     useSpaces = False,
     numSpaces = 2 \<rparr>"

definition BEGIN_WAYPOINT :: string where
  "BEGIN_WAYPOINT = ''%% Begin Waypoint %%''"

definition END_WAYPOINT :: string where
  "END_WAYPOINT = ''%% End Waypoint %%''"

definition BEGIN_LANDMARK :: string where
  "BEGIN_LANDMARK = ''%% Begin Landmark %%''"

definition END_LANDMARK :: string where
  "END_LANDMARK = ''%% End Landmark %%''"

text \<open>
  What the program takes from the JavaScript runtime and cannot be written down here:
  \<^item> \<open>regexp p\<close> is \<^verbatim>\<open>new RegExp(p)\<close> followed by \<^verbatim>\<open>path.match(regex)\<close>: \<open>None\<close> when
    the constructor throws a SyntaxError on a malformed pattern, otherwise the test
    "the pattern matches somewhere in the path";
  \<^item> \<open>newDate\<close> is \<^verbatim>\<open>new Date(x)\<close> read through \<^verbatim>\<open>getFullYear\<close>, \<^verbatim>\<open>getMonth\<close>,
    \<^verbatim>\<open>getDate\<close> and \<^verbatim>\<open>getDay\<close> (in this order), \<open>None\<close> for an invalid date, whose
    getters all return NaN;
  \<^item> \<open>arraySort\<close> is \<^verbatim>\<open>Array.prototype.sort\<close> with a comparator, on a list of children;
    the answer of a comparator is a number, \<open>None\<close> for NaN.
\<close>

datatype error = SyntaxError

datatype datearg = DateOfValue fmval | DateOfTime int

record host =
  regexp :: "string \<Rightarrow> (string \<Rightarrow> bool) option"
  newDate :: "datearg \<Rightarrow> (int \<times> int \<times> int \<times> int) option"
  arraySort :: "((string \<times> TAbstractFile) \<Rightarrow> (string \<times> TAbstractFile) \<Rightarrow> int option)
                 \<Rightarrow> (string \<times> TAbstractFile) list \<Rightarrow> (string \<times> TAbstractFile) list"

section \<open>The ignore filter\<close>

text \<open>
  \<^verbatim>\<open>ignorePath\<close> (main.ts 558-575). The \<^verbatim>\<open>forEach\<close> visits every pattern; an empty
  pattern returns from the callback at once; the regular expression is built with no
  handler around it, so a SyntaxError leaves \<^verbatim>\<open>ignorePath\<close> as an exception.
\<close>

fun ignorePath_forEach :: "host \<Rightarrow> string list \<Rightarrow> string \<Rightarrow> bool \<Rightarrow> error + bool" where
  "ignorePath_forEach h [] path found = Inr found"
| "ignorePath_forEach h (comparePath # rest) path found =
     (if comparePath = '''' then ignorePath_forEach h rest path found
      else (case regexp h comparePath of
              None \<Rightarrow> Inl SyntaxError
            | Some regex \<Rightarrow>
                ignorePath_forEach h rest path (if regex path then True else found)))"

definition ignorePath :: "host \<Rightarrow> WaypointSettings \<Rightarrow> string \<Rightarrow> error + bool" where
  "ignorePath h settings path =
     (case ignorePath_forEach h (ignorePaths settings) path False of
        Inl e \<Rightarrow> Inl e
      | Inr found \<Rightarrow> (if found then Inr True else Inr False))"

text \<open>
  A fragment of the host's regular expressions, for concrete runs: a pattern without
  metacharacters matches a path exactly when it occurs in it. Patterns with
  metacharacters lie outside the fragment and are given as rejected; the concrete runs
  use only \<^verbatim>\<open>(\<close> of them, which the host rejects (unterminated group).
\<close>

definition literalRegExp :: "string \<Rightarrow> (string \<Rightarrow> bool) option" where
  "literalRegExp p =
     (if \<exists>c \<in> set p. c \<in> set (backslash # ''^$.|?*+()[]{}'') then None
      else Some (\<lambda>path. str_includes p path))"

text \<open>
  A time value is a number of milliseconds of at most 8.64e15 in absolute value:
  \<^verbatim>\<open>new Date(t)\<close> is an invalid date beyond, and its \<^verbatim>\<open>getTime()\<close> is NaN.
\<close>

definition getTime :: "int \<Rightarrow> int option" where
  \<comment> \<open>\<^verbatim>\<open>new Date(t).getTime()\<close>, \<open>None\<close> for NaN\<close>
  "getTime t = (if \<bar>t\<bar> \<le> 8640000000000000 then Some t else None)"

definition noDate :: "datearg \<Rightarrow> (int \<times> int \<times> int \<times> int) option" where
  \<comment> \<open>a calendar for concrete runs: every valid date is 1970-01-01, a Thursday\<close>
  "noDate x =
     (case x of
        DateOfTime t \<Rightarrow> (if getTime t = None then None else Some (1970, 0, 1, 4))
      | DateOfValue val \<Rightarrow> Some (1970, 0, 1, 4))"

text \<open>
  A stable insertion sort, the sort of the concrete runs. It reads the answer of the
  comparator as the language's SortCompare does, NaN as \<^verbatim>\<open>+0\<close>.
\<close>

definition sortCompare :: "('a \<Rightarrow> 'a \<Rightarrow> int option) \<Rightarrow> 'a \<Rightarrow> 'a \<Rightarrow> int" where
  "sortCompare cmp x y = (case cmp x y of None \<Rightarrow> 0 | Some n \<Rightarrow> n)"

fun insertBy :: "('a \<Rightarrow> 'a \<Rightarrow> int option) \<Rightarrow> 'a \<Rightarrow> 'a list \<Rightarrow> 'a list" where
  "insertBy cmp x [] = [x]"
| "insertBy cmp x (y # ys) =
     (if sortCompare cmp x y \<le> 0 then x # y # ys else y # insertBy cmp x ys)"

definition insertionSort :: "('a \<Rightarrow> 'a \<Rightarrow> int option) \<Rightarrow> 'a list \<Rightarrow> 'a list" where
  "insertionSort cmp xs = foldr (insertBy cmp) xs []"


definition testHost :: host where
  "testHost = \<lparr> regexp = literalRegExp, newDate = noDate, arraySort = insertionSort \<rparr>"

section \<open>Markers and folder notes\<close>

definition getWaypointBounds :: "WaypointType \<Rightarrow> string \<times> string" where
  \<comment> \<open>the \<^verbatim>\<open>[null, null]\<close> answer needs a flag outside the enum\<close>
  "getWaypointBounds flag =
     (case flag of Waypoint \<Rightarrow> (BEGIN_WAYPOINT, END_WAYPOINT)
                 | Landmark \<Rightarrow> (BEGIN_LANDMARK, END_LANDMARK))"

definition getWaypointFlag :: "WaypointSettings \<Rightarrow> WaypointType \<Rightarrow> string" where
  "getWaypointFlag settings t =
     (case t of Waypoint \<Rightarrow> waypointFlag settings | Landmark \<Rightarrow> landmarkFlag settings)"

definition getCleanParentPath :: "string \<Rightarrow> string" where
  \<comment> \<open>for a node that has a parent\<close>
  "getCleanParentPath node = (if isRoot (dirname node) then '''' else dirname node @ ''/'')"

text \<open>
  \<^verbatim>\<open>isFolderNote\<close> (main.ts 155-167). A file object is its path with its record. A file
  always has a parent folder, \<open>dirname\<close> of its path.
\<close>

definition isFolderNote :: "WaypointSettings \<Rightarrow> vault \<Rightarrow> string \<times> TFile \<Rightarrow> bool" where
  "isFolderNote settings v file =
     (if folderNoteType settings = InsideFolder then
        (if folderNoteName settings = '''' then basename (snd file) = name_of (dirname (fst file))
         else basename (snd file) = folderNoteName settings)
      else (case parent (fst file) of
              Some p \<Rightarrow>
                (case getAbstractFileByPath v (getCleanParentPath (fst file) @ basename (snd file)) of
                   Some AFolder \<Rightarrow> True
                 | _ \<Rightarrow> False)
            | None \<Rightarrow> False))"

section \<open>The error comment\<close>

text \<open>
  \<^verbatim>\<open>printError\<close> (main.ts 176-194). The loop has no \<^verbatim>\<open>break\<close> and no guard: the index
  it keeps is that of the last line holding the flag. \<open>None\<close> is \<^verbatim>\<open>-1\<close>.
\<close>

fun printError_scan :: "string \<Rightarrow> string list \<Rightarrow> nat \<Rightarrow> nat option \<Rightarrow> nat option" where
  "printError_scan pointFlag [] i waypointIndex = waypointIndex"
| "printError_scan pointFlag (l # ls) i waypointIndex =
     printError_scan pointFlag ls (Suc i)
       (if str_includes pointFlag (trim l) then Some i else waypointIndex)"

definition printError :: "WaypointSettings \<Rightarrow> vault \<Rightarrow> string \<times> TFile \<Rightarrow> string \<Rightarrow> WaypointType \<Rightarrow> vault" where
  "printError settings v file err flagType =
     (let lines = lines_of (content (snd file));
          pointFlag = getWaypointFlag settings flagType
      in case printError_scan pointFlag lines 0 None of
           None \<Rightarrow> v
         | Some waypointIndex \<Rightarrow>
             modify v (fst file) (unlines (splice lines waypointIndex 1 [err])))"

definition rootError :: "WaypointType \<Rightarrow> string" where
  "rootError flagType =
     ''%% Error: Cannot create a '' @ typeName flagType @
     '' in the root folder of your vault. For more information, check the instructions [here](https://github.com/IdreesInc/Waypoint) %%''"

definition notFolderNoteError :: "WaypointType \<Rightarrow> string" where
  "notFolderNoteError flagType =
     ''%% Error: Cannot create a '' @ typeName flagType @
     '' in a note that'' @ [CHR 0x27] @ ''s not the folder note. For more information, check the instructions [here](https://github.com/IdreesInc/Waypoint) %%''"

section \<open>The table renderer\<close>

text \<open>
  The comparator of the sort (main.ts 350-355). \<^verbatim>\<open>!a.stat?.ctime\<close> holds for a folder,
  which has no \<^verbatim>\<open>stat\<close>, and for a file whose \<^verbatim>\<open>ctime\<close> is 0. Creation times are
  millisecond time stamps: \<^verbatim>\<open>new Date(t).getTime()\<close> is \<open>t\<close> when \<open>t\<close> is a time
  value and NaN otherwise, and a difference with NaN is NaN.
\<close>

definition hasCtime :: "string \<times> TAbstractFile \<Rightarrow> bool" where
  "hasCtime a = (case snd a of AFile f \<Rightarrow> ctime (stat f) \<noteq> 0 | AFolder \<Rightarrow> False)"

definition ctimeOf :: "string \<times> TAbstractFile \<Rightarrow> int" where
  "ctimeOf a = (case snd a of AFile f \<Rightarrow> ctime (stat f) | AFolder \<Rightarrow> 0)"

definition compareChildren :: "string \<times> TAbstractFile \<Rightarrow> string \<times> TAbstractFile \<Rightarrow> int option" where
  "compareChildren a b =
     (if \<not> hasCtime a then Some (- 1)
      else if \<not> hasCtime b then Some 1
      else (case (getTime (ctimeOf b), getTime (ctimeOf a)) of
              (Some tb, Some ta) \<Rightarrow> Some (tb - ta)
            | _ \<Rightarrow> None))"

text \<open>
  The filter loop (main.ts 358-375): an ignored child is skipped; a file that is a folder
  note is remembered (the last one wins) and skipped unless folder notes are shown.
\<close>

fun filterChildren ::
  "host \<Rightarrow> WaypointSettings \<Rightarrow> vault \<Rightarrow> (string \<times> TAbstractFile) list
   \<Rightarrow> (string \<times> TAbstractFile) list \<Rightarrow> (string \<times> TFile) option
   \<Rightarrow> error + ((string \<times> TAbstractFile) list \<times> (string \<times> TFile) option)" where
  "filterChildren h settings v [] filtered folderNote = Inr (filtered, folderNote)"
| "filterChildren h settings v (child # rest) filtered folderNote =
     (case ignorePath h settings (fst child) of
        Inl e \<Rightarrow> Inl e
      | Inr ignored \<Rightarrow>
          if ignored then filterChildren h settings v rest filtered folderNote
          else (case snd child of
                  AFile f \<Rightarrow>
                    if isFolderNote settings v (fst child, f) then
                      (if \<not> showFolderNotes settings
                       then filterChildren h settings v rest filtered (Some (fst child, f))
                       else filterChildren h settings v rest (filtered @ [child]) (Some (fst child, f)))
                    else filterChildren h settings v rest (filtered @ [child]) folderNote
                | AFolder \<Rightarrow> filterChildren h settings v rest (filtered @ [child]) folderNote))"

text \<open>Numbers in template strings: \<^verbatim>\<open>toString\<close> of an integer.\<close>

fun digits :: "nat \<Rightarrow> string" where
  "digits n = (if n < 10 then [''0123456789'' ! n] else digits (n div 10) @ [''0123456789'' ! (n mod 10)])"

definition numToString :: "int \<Rightarrow> string" where
  "numToString i = (if i < 0 then ''-'' @ digits (nat (- i)) else digits (nat i))"

text \<open>\<^verbatim>\<open>convertDay\<close> (main.ts 510-521); the day names are written as their UTF-8 bytes.\<close>

definition convertDay :: "int \<Rightarrow> string" where
  "convertDay dt =
     (if dt = 0 then [CHR 0xEC, CHR 0x9D, CHR 0xBC]
      else if dt = 1 then [CHR 0xEC, CHR 0x9B, CHR 0x94]
      else if dt = 2 then [CHR 0xED, CHR 0x99, CHR 0x94]
      else if dt = 3 then [CHR 0xEC, CHR 0x88, CHR 0x98]
      else if dt = 4 then [CHR 0xEB, CHR 0xAA, CHR 0xA9]
      else if dt = 5 then [CHR 0xEA, CHR 0xB8, CHR 0x88]
      else if dt = 6 then [CHR 0xED, CHR 0x86, CHR 0xA0]
      else '''')"

definition addZero :: "int \<Rightarrow> string" where
  "addZero dt = (let dtStr = numToString dt in if length dtStr = 1 then ''0'' @ dtStr else dtStr)"

text \<open>\<^verbatim>\<open>v.replace(pat, rep)\<close> with a string pattern: the first occurrence only.\<close>

fun replaceFirst :: "string \<Rightarrow> string \<Rightarrow> string \<Rightarrow> string" where
  "replaceFirst pat rep [] = (if pat = [] then rep else [])"
| "replaceFirst pat rep (x # xs) =
     (if startsWith pat (x # xs) then rep @ drop (length pat) (x # xs)
      else x # replaceFirst pat rep xs)"

definition replaceAll :: "char \<Rightarrow> string \<Rightarrow> string \<Rightarrow> string" where
  \<comment> \<open>\<^verbatim>\<open>s.replaceAll(c, rep)\<close> for a one-character pattern\<close>
  "replaceAll c rep s = concat (map (\<lambda>x. if x = c then rep else [x]) s)"

text \<open>\<^verbatim>\<open>convertLink\<close> (main.ts 532-541), on a string value; the key is taken literally.\<close>

definition convertLink :: "string \<Rightarrow> string \<Rightarrow> string" where
  "convertLink v k =
     (if utf16Length v > 12 then
        (if startsWith ''[['' v then replaceFirst '']]'' ([backslash] @ ''|'' @ k @ '']]'') v
         else if startsWith ''https://'' v \<or> startsWith ''http://'' v then ''['' @ k @ ''](''  @ v @ '')''
         else v)
      else v)"

definition fmGet :: "(string \<times> fmval) list option \<Rightarrow> string \<Rightarrow> fmval option" where
  \<comment> \<open>\<^verbatim>\<open>f && f.hasOwnProperty(key)\<close>, then \<^verbatim>\<open>f[key]\<close>\<close>
  "fmGet f key = (case f of None \<Rightarrow> None | Some m \<Rightarrow> map_of m key)"

definition templ :: "fmval \<Rightarrow> string" where
  \<comment> \<open>a value inside a template string\<close>
  "templ val = (case val of FmStr s \<Rightarrow> s | FmArr xs \<Rightarrow> joinWith '','' xs)"

definition truthy :: "fmval option \<Rightarrow> bool" where
  "truthy val = (case val of None \<Rightarrow> False | Some (FmStr s) \<Rightarrow> s \<noteq> '''' | Some (FmArr xs) \<Rightarrow> True)"

definition frontmatterOf :: "string \<times> TAbstractFile \<Rightarrow> (string \<times> fmval) list option" where
  \<comment> \<open>the front-matter of a child that is a file, \<^verbatim>\<open>undefined\<close> for a folder\<close>
  "frontmatterOf child = (case snd child of AFile f \<Rightarrow> frontmatter f | AFolder \<Rightarrow> None)"

definition titleCell :: "WaypointSettings \<Rightarrow> string \<Rightarrow> string \<times> TAbstractFile \<Rightarrow> string" where
  "titleCell settings node child =
     (case snd child of
        AFile cf \<Rightarrow>
          (let name = (if extension cf = ''md'' then basename cf else name_of (fst child));
               name = (if useFrontMatterTitle settings then
                         (case fmGet (frontmatter cf) ''title'' of Some t \<Rightarrow> templ t | None \<Rightarrow> name)
                       else name)
           in if useWikiLinks settings
              then ''|[['' @ fst child @ [backslash] @ ''|'' @ name @ '']]''
              else ''|['' @ name @ ''](''  @ replaceAll (CHR '' '') ''%20'' (fst child) @ '')'')
      | AFolder \<Rightarrow>
          (let path =
                 (if folderNoteType settings = InsideFolder then
                    (if folderNoteName settings = ''''
                     then fst child @ ''/'' @ name_of (fst child) @ ''.md''
                     else fst child @ ''/'' @ folderNoteName settings @ ''.md'')
                  else (case parent node of
                          Some p \<Rightarrow>
                            (if folderNoteName settings = ''''
                             then fst child @ ''/'' @ name_of (fst child) @ ''.md''
                             else fst child @ ''/'' @ folderNoteName settings @ ''.md'')
                        | None \<Rightarrow> ''''))
           in if useWikiLinks settings
              then ''|[['' @ path @ [backslash] @ ''|'' @ name_of (fst child) @ '']]''
              else ''|['' @ name_of (fst child) @ ''](''  @ replaceAll (CHR '' '') ''%20'' path @ '')''))"

definition dateCell :: "host \<Rightarrow> string \<times> TAbstractFile \<Rightarrow> string" where
  "dateCell h child =
     (case snd child of
        AFile cf \<Rightarrow>
          (let f = frontmatter cf;
               ctime = (if truthy (fmGet f ''DATE'') then DateOfValue (the (fmGet f ''DATE''))
                        else if truthy (fmGet f ''Date'') then DateOfValue (the (fmGet f ''Date''))
                        else if truthy (fmGet f ''date'') then DateOfValue (the (fmGet f ''date''))
                        else DateOfTime (FileStats.ctime (stat cf)))
           in case newDate h ctime of
                None \<Rightarrow> ''|NaN-NaN-NaN ()''
              | Some (year, month, day, weekday) \<Rightarrow>
                  ''|'' @ numToString year @ ''-'' @ addZero (month + 1) @ ''-'' @ addZero day
                    @ '' ('' @ convertDay weekday @ '')'')
      | AFolder \<Rightarrow> ''|'')"

definition tagsCell :: "string \<times> TAbstractFile \<Rightarrow> string \<Rightarrow> string" where
  "tagsCell child key =
     (case fmGet (frontmatterOf child) key of
        Some (FmArr xs) \<Rightarrow> ''|'' @ joinWith '' '' xs
      | Some (FmStr s) \<Rightarrow> ''|'' @ s
      | None \<Rightarrow> ''|'')"

definition defaultCell :: "string \<times> TAbstractFile \<Rightarrow> string \<Rightarrow> string" where
  "defaultCell child key =
     (case fmGet (frontmatterOf child) key of
        Some (FmArr xs) \<Rightarrow> ''|'' @ joinWith '', '' (map (\<lambda>v. convertLink v key) xs)
      | Some (FmStr s) \<Rightarrow> ''|'' @ convertLink s key
      | None \<Rightarrow> ''|'')"

definition cell :: "host \<Rightarrow> WaypointSettings \<Rightarrow> string \<Rightarrow> string \<times> TAbstractFile \<Rightarrow> string \<Rightarrow> string" where
  \<comment> \<open>the \<^verbatim>\<open>switch (key)\<close> of the row loop\<close>
  "cell h settings node child key =
     (if key \<in> set [''TITLE'', ''Title'', ''title''] then titleCell settings node child
      else if key \<in> set [''DATE'', ''Date'', ''date''] then dateCell h child
      else if key = ''tags'' then tagsCell child key
      else defaultCell child key)"

definition renderRow :: "host \<Rightarrow> WaypointSettings \<Rightarrow> string \<Rightarrow> string list \<Rightarrow> string \<times> TAbstractFile \<Rightarrow> string" where
  "renderRow h settings node keyList child =
     concat (map (cell h settings node child) keyList) @ ''|'' @ [newline]"

definition navLine :: "WaypointSettings \<Rightarrow> string \<Rightarrow> string" where
  \<comment> \<open>the new file / new folder links (main.ts 379-390)\<close>
  "navLine settings node =
     (if folderNoteType settings = InsideFolder then
        (if useWikiLinks settings then
           [newline] @ ''[['' @ node @ ''/new file.md'' @ [backslash] @ ''|new file]] | [[''
             @ node @ ''/new folder/new folder.md'' @ [backslash] @ ''|new folder]]'' @ [newline]
         else [newline] @ ''[new file]('' @ node @ ''/new file.md) | [new folder](''
             @ node @ ''/new folder/README.md)'' @ [newline])
      else (case parent node of
              Some p \<Rightarrow> [newline] @ ''[['' @ node @ ''/new file.md'' @ [backslash] @ ''|new file]]'' @ [newline]
            | None \<Rightarrow> ''''))"

definition tableHead :: "string list \<Rightarrow> string" where
  "tableHead keyList =
     [newline] @ ''|'' @ joinWith ''|'' keyList @ ''|'' @ [newline]
       @ ''|'' @ joinWith ''|'' (map (\<lambda>k. ''---'') keyList) @ ''|'' @ [newline]"

definition keyListOf :: "(string \<times> TFile) option \<Rightarrow> string list" where
  \<comment> \<open>the front-matter read is that of the folder note; the folder itself has none\<close>
  "keyListOf folderNote =
     [''TITLE'', ''DATE''] @
     (case fmGet (case folderNote of Some fn \<Rightarrow> frontmatter (snd fn) | None \<Rightarrow> None) ''keys'' of
        Some (FmArr ks) \<Rightarrow> ks
      | _ \<Rightarrow> [])"

text \<open>
  \<^verbatim>\<open>getFileTreeRepresentation\<close> (main.ts 292-509) on a folder \<open>node\<close>; \<open>None\<close> is the
  \<^verbatim>\<open>null\<close> result. The parameters \<^verbatim>\<open>indentLevel\<close> and \<^verbatim>\<open>topLevel\<close> are not read by
  the body.
\<close>

definition getFileTreeRepresentation ::
  "host \<Rightarrow> WaypointSettings \<Rightarrow> vault \<Rightarrow> string \<Rightarrow> string \<Rightarrow> error + string option" where
  "getFileTreeRepresentation h settings v rootNode node =
     (case ignorePath h settings node of
        Inl e \<Rightarrow> Inl e
      | Inr ignored \<Rightarrow>
          if ignored then Inr None
          else (let children = arraySort h compareChildren (children_of v node)
                in case filterChildren h settings v children [] None of
                     Inl e \<Rightarrow> Inl e
                   | Inr (children, folderNote) \<Rightarrow>
                       (let out = ''# '' @ name_of rootNode;
                            out = out @ navLine settings node;
                            keyList = keyListOf folderNote;
                            out = out @ tableHead keyList
                        in Inr (Some (out @ concat (map (renderRow h settings node keyList) children))))))"

section \<open>The index updater\<close>

text \<open>
  The bounds scan of \<^verbatim>\<open>updateWaypoint\<close> (main.ts 246-263). \<open>None\<close> is \<^verbatim>\<open>-1\<close>;
  \<^verbatim>\<open>isCallout\<close> starts undefined, which the later test reads as false.
\<close>

record bounds =
  waypointStart :: "nat option"
  waypointEnd :: "nat option"
  isCallout :: bool
  initialWaypoint :: bool

definition noBounds :: bounds where
  "noBounds = \<lparr> waypointStart = None, waypointEnd = None, isCallout = False, initialWaypoint = False \<rparr>"

fun scanBounds :: "string \<Rightarrow> string \<Rightarrow> string \<Rightarrow> string list \<Rightarrow> nat \<Rightarrow> bounds \<Rightarrow> bounds" where
  "scanBounds flag beginW endW [] i b = b"
| "scanBounds flag beginW endW (l # ls) i b =
     (let trimmed = trim l in
      if waypointStart b = None
         \<and> (str_includes flag trimmed \<or> str_includes beginW trimmed)
      then scanBounds flag beginW endW ls (Suc i)
             (b\<lparr> isCallout := startsWith ''>'' trimmed,
                initialWaypoint := str_includes flag trimmed,
                waypointStart := Some i \<rparr>)
      else if waypointStart b \<noteq> None \<and> trimmed = endW
      then b\<lparr> waypointEnd := Some i \<rparr>
      else scanBounds flag beginW endW ls (Suc i) b)"

text \<open>The value of \<^verbatim>\<open>fileTree\<close> and its reading inside the template string.\<close>

datatype fileTreeValue = TreeString string | TreeNull | TreeUndefined

definition interpolate :: "fileTreeValue \<Rightarrow> string" where
  "interpolate t = (case t of TreeString s \<Rightarrow> s | TreeNull \<Rightarrow> ''null'' | TreeUndefined \<Rightarrow> ''undefined'')"

definition fileTreeFor :: "host \<Rightarrow> WaypointSettings \<Rightarrow> vault \<Rightarrow> string \<times> TFile \<Rightarrow> error + fileTreeValue" where
  \<comment> \<open>main.ts 228-236\<close>
  "fileTreeFor h settings v file =
     (if folderNoteType settings = InsideFolder then
        (case getFileTreeRepresentation h settings v (dirname (fst file)) (dirname (fst file)) of
           Inl e \<Rightarrow> Inl e
         | Inr None \<Rightarrow> Inr TreeNull
         | Inr (Some s) \<Rightarrow> Inr (TreeString s))
      else (let folder = getCleanParentPath (fst file) @ basename (snd file)
            in case getAbstractFileByPath v folder of
                 Some AFolder \<Rightarrow>
                   (case getFileTreeRepresentation h settings v (dirname (fst file)) folder of
                      Inl e \<Rightarrow> Inl e
                    | Inr None \<Rightarrow> Inr TreeNull
                    | Inr (Some s) \<Rightarrow> Inr (TreeString s))
               | _ \<Rightarrow> Inr TreeUndefined))"

definition calloutPrefix :: "WaypointType \<Rightarrow> string" where
  "calloutPrefix flagType = (if flagType = Landmark then ''[!landmark]'' else ''[!waypoint]'') @ [newline]"

text \<open>
  \<^verbatim>\<open>updateWaypoint\<close> (main.ts 226-282). \<open>Inl\<close> is an exception of the renderer; when no
  start line is found the error is logged and the vault is left as it is.
\<close>

definition updateWaypoint ::
  "host \<Rightarrow> WaypointSettings \<Rightarrow> vault \<Rightarrow> string \<times> TFile \<Rightarrow> WaypointType \<Rightarrow> error + vault" where
  "updateWaypoint h settings v file flagType =
     (case fileTreeFor h settings v file of
        Inl e \<Rightarrow> Inl e
      | Inr fileTree \<Rightarrow>
          (let (beginWaypoint, endWaypoint) = getWaypointBounds flagType;
               waypoint = beginWaypoint @ [newline] @ interpolate fileTree @ [newline, newline] @ endWaypoint;
               waypointFlag = getWaypointFlag settings flagType;
               lines = lines_of (content (snd file));
               b = scanBounds waypointFlag beginWaypoint endWaypoint lines 0 noBounds
           in case waypointStart b of
                None \<Rightarrow> Inr v
              | Some start \<Rightarrow>
                  (let waypoint =
                         (if isCallout b then
                            unlines (map (\<lambda>line. ''>'' @ line)
                              (lines_of ((if initialWaypoint b then calloutPrefix flagType else '''') @ waypoint)))
                          else waypoint);
                       deleteCount = (case waypointEnd b of Some e \<Rightarrow> e - start + 1 | None \<Rightarrow> 1)
                   in Inr (modify v (fst file) (unlines (splice lines start deleteCount [waypoint]))))))"

section \<open>The propagation engine\<close>

text \<open>The body of the loop of \<^verbatim>\<open>locateParentPoint\<close> (main.ts 618-637), for one folder.\<close>

definition folderNotePath :: "WaypointSettings \<Rightarrow> string \<Rightarrow> string option" where
  \<comment> \<open>the path the loop looks up for \<open>folder\<close>, if it looks one up\<close>
  "folderNotePath settings folder =
     (if folderNoteType settings = InsideFolder then Some (folder @ ''/'' @ name_of folder @ ''.md'')
      else (case parent folder of
              Some p \<Rightarrow> Some (getCleanParentPath folder @ name_of folder @ ''.md'')
            | None \<Rightarrow> None))"

definition markerOf :: "WaypointSettings \<Rightarrow> string \<Rightarrow> WaypointType option" where
  "markerOf settings text =
     (if str_includes BEGIN_WAYPOINT text \<or> str_includes (waypointFlag settings) text then Some Waypoint
      else if str_includes BEGIN_LANDMARK text \<or> str_includes (landmarkFlag settings) text then Some Landmark
      else None)"

definition pointAt :: "WaypointSettings \<Rightarrow> vault \<Rightarrow> string \<Rightarrow> (WaypointType \<times> string \<times> TFile) option" where
  \<comment> \<open>one turn of the loop's body: the folder note of \<open>folder\<close> when it holds a marker\<close>
  "pointAt settings v folder =
     (case folderNotePath settings folder of
        None \<Rightarrow> None
      | Some p \<Rightarrow>
          (case getAbstractFileByPath v p of
             Some (AFile f) \<Rightarrow>
               (case markerOf settings (content f) of
                  Some t \<Rightarrow> Some (t, p, f)
                | None \<Rightarrow> None)
           | _ \<Rightarrow> None))"

text \<open>
  The walk goes from a folder to its parent; the root has none. That it ends rests on the
  shape of paths: the parent of a path has fewer separators.
\<close>

lemma split_last_slash:
  assumes "CHR ''/'' \<in> set p"
  shows "p = dirname p @ ''/'' @ name_of p" and "CHR ''/'' \<notin> set (name_of p)"
proof -
  let ?P = "\<lambda>c. c \<noteq> CHR ''/''"
  have ne: "dropWhile ?P (rev p) \<noteq> []" using assms by (simp add: dropWhile_eq_Nil_conv)
  have hd: "hd (dropWhile ?P (rev p)) = CHR ''/''" using ne hd_dropWhile[of ?P "rev p"] by auto
  have "rev p = takeWhile ?P (rev p) @ dropWhile ?P (rev p)" by simp
  also have "dropWhile ?P (rev p) = CHR ''/'' # tl (dropWhile ?P (rev p))"
    using ne hd by (metis list.collapse)
  finally have "rev p = takeWhile ?P (rev p) @ CHR ''/'' # tl (dropWhile ?P (rev p))" .
  then have "rev (rev p) = rev (takeWhile ?P (rev p) @ CHR ''/'' # tl (dropWhile ?P (rev p)))" by simp
  then show "p = dirname p @ ''/'' @ name_of p"
    using assms by (simp add: dirname_def name_of_def)
  show "CHR ''/'' \<notin> set (name_of p)"
    unfolding name_of_def using set_takeWhileD[of "CHR ''/''" ?P "rev p"] by auto
qed

lemma name_of_no_slash: "CHR ''/'' \<notin> set (name_of p)"
  unfolding name_of_def using set_takeWhileD[of "CHR ''/''" "\<lambda>c. c \<noteq> CHR ''/''" "rev p"] by auto

lemma dirname_append:
  assumes "CHR ''/'' \<notin> set n"
  shows "dirname (a @ ''/'' @ n) = a"
proof -
  have "dropWhile (\<lambda>c. c \<noteq> CHR ''/'') (rev n @ CHR ''/'' # rev a) = CHR ''/'' # rev a"
    using assms by (auto simp: dropWhile_append3)
  then show ?thesis by (simp add: dirname_def)
qed

lemma name_of_append:
  assumes "CHR ''/'' \<notin> set n"
  shows "name_of (a @ ''/'' @ n) = n"
proof -
  have "takeWhile (\<lambda>c. c \<noteq> CHR ''/'') (rev n @ CHR ''/'' # rev a) = rev n"
    using assms by (auto simp: takeWhile_tail)
  then show ?thesis by (simp add: name_of_def)
qed

lemma dirname_no_slash: "CHR ''/'' \<notin> set p \<Longrightarrow> dirname p = ''/''"
  by (simp add: dirname_def)

lemma depth_dirname: "\<not> isRoot p \<Longrightarrow> depth (dirname p) < depth p"
proof (cases "CHR ''/'' \<in> set p")
  case True
  assume nr: "\<not> isRoot p"
  have "count_list p (CHR ''/'') = count_list (dirname p @ ''/'' @ name_of p) (CHR ''/'')"
    using split_last_slash(1)[OF True] by simp
  also have "\<dots> = count_list (dirname p) (CHR ''/'') + 1 + count_list (name_of p) (CHR ''/'')"
    by simp
  also have "count_list (name_of p) (CHR ''/'') = 0"
    using name_of_no_slash by (simp add: count_list_0_iff)
  finally show ?thesis using nr by (simp add: depth_def)
next
  case False
  assume "\<not> isRoot p"
  then show ?thesis using False by (simp add: depth_def dirname_def isRoot_def)
qed

text \<open>
  The \<^verbatim>\<open>while (folder)\<close> loop of \<^verbatim>\<open>locateParentPoint\<close> (main.ts 614-642), from the
  folder it starts at; \<open>None\<close> is \<^verbatim>\<open>[null, null]\<close>.
\<close>

function locateParentPoint_loop ::
  "WaypointSettings \<Rightarrow> vault \<Rightarrow> string option \<Rightarrow> (WaypointType \<times> string \<times> TFile) option" where
  "locateParentPoint_loop settings v None = None"
| "locateParentPoint_loop settings v (Some folder) =
     (case pointAt settings v folder of
        Some found \<Rightarrow> Some found
      | None \<Rightarrow> locateParentPoint_loop settings v (parent folder))"
  by pat_completeness auto
termination
  by (relation "measure (\<lambda>(settings, v, folder). case folder of None \<Rightarrow> 0 | Some p \<Rightarrow> Suc (depth p))")
     (auto simp: parent_def depth_dirname split: if_splits)

definition locateParentPoint ::
  "WaypointSettings \<Rightarrow> vault \<Rightarrow> string \<Rightarrow> bool \<Rightarrow> (WaypointType \<times> string \<times> TFile) option" where
  "locateParentPoint settings v node includeCurrentNode =
     locateParentPoint_loop settings v (if includeCurrentNode then Some node else parent node)"

lemma folderNotePath_dirname:
  assumes "folderNotePath settings folder = Some p"
  shows "depth (dirname p) \<le> depth folder"
proof (cases "folderNoteType settings = InsideFolder")
  case True
  define n where "n = name_of folder @ ''.md''"
  have ns: "CHR ''/'' \<notin> set n"
    using name_of_no_slash[of folder] by (simp add: n_def)
  have "p = folder @ ''/'' @ n"
    using assms True by (simp add: folderNotePath_def n_def)
  then have "dirname p = folder" using dirname_append[OF ns, of folder] by simp
  then show ?thesis by simp
next
  case False
  define n where "n = name_of folder @ ''.md''"
  have ns: "CHR ''/'' \<notin> set n"
    using name_of_no_slash[of folder] by (simp add: n_def)
  have nr: "\<not> isRoot folder"
    using assms False by (auto simp: folderNotePath_def parent_def split: if_splits)
  have p: "p = getCleanParentPath folder @ n"
    using assms False by (auto simp: folderNotePath_def parent_def n_def split: if_splits)
  have "dirname p = dirname folder"
  proof (cases "isRoot (dirname folder)")
    case True
    then have "p = n" using p by (simp add: getCleanParentPath_def)
    then have "dirname p = ''/''" using ns dirname_no_slash[of n] by simp
    then show ?thesis using True by (simp add: isRoot_def)
  next
    case False
    then have "p = dirname folder @ ''/'' @ n"
      using p by (simp add: getCleanParentPath_def)
    then show ?thesis using dirname_append[OF ns, of "dirname folder"] by simp
  qed
  then show ?thesis using depth_dirname[OF nr] by simp
qed

lemma pointAt_path:
  "pointAt settings v folder = Some (t, p, f) \<Longrightarrow> folderNotePath settings folder = Some p"
  by (auto simp: pointAt_def split: option.splits TAbstractFile.splits)

lemma locateParentPoint_loop_depth:
  "locateParentPoint_loop settings v start = Some (t, p, f) \<Longrightarrow>
   \<exists>folder. start = Some folder \<and> depth (dirname p) \<le> depth folder"
proof (induction settings v start rule: locateParentPoint_loop.induct)
  case (1 settings v)
  then show ?case by simp
next
  case (2 settings v folder)
  show ?case
  proof (cases "pointAt settings v folder")
    case None
    then have "locateParentPoint_loop settings v (parent folder) = Some (t, p, f)"
      using "2.prems" by simp
    then obtain g where g: "parent folder = Some g" "depth (dirname p) \<le> depth g"
      using "2.IH"[OF None] by blast
    then have "depth g < depth folder"
      using depth_dirname[of folder] by (auto simp: parent_def split: if_splits)
    then show ?thesis using g by simp
  next
    case (Some found)
    then have "pointAt settings v folder = Some (t, p, f)" using "2.prems" by simp
    from folderNotePath_dirname[OF pointAt_path[OF this]]
    show ?thesis by simp
  qed
qed

lemma locateParentPoint_depth:
  assumes "locateParentPoint settings v node includeCurrentNode = Some (t, p, f)"
  shows "depth (dirname p) < (if includeCurrentNode then Suc (depth node) else depth node)"
proof -
  obtain folder where s: "(if includeCurrentNode then Some node else parent node) = Some folder"
    and d: "depth (dirname p) \<le> depth folder"
    using locateParentPoint_loop_depth assms unfolding locateParentPoint_def by blast
  show ?thesis
  proof (cases includeCurrentNode)
    case True
    then show ?thesis using s d by simp
  next
    case False
    then have "parent node = Some folder" using s by simp
    then have "depth folder < depth node"
      using depth_dirname[of node] by (auto simp: parent_def split: if_splits)
    then show ?thesis using False d by simp
  qed
qed

text \<open>
  \<^verbatim>\<open>updateParentPoint\<close> (main.ts 599-606). The call of \<^verbatim>\<open>updateWaypoint\<close> is not awaited:
  an exception inside it rejects a promise nobody reads and the walk goes on. The next
  call starts from \<^verbatim>\<open>parentPoint.parent\<close>, the folder holding the note just updated.
\<close>

function updateParentPoint ::
  "host \<Rightarrow> WaypointSettings \<Rightarrow> vault \<Rightarrow> string \<Rightarrow> bool \<Rightarrow> vault" where
  "updateParentPoint h settings v node includeCurrentNode =
     (case locateParentPoint settings v node includeCurrentNode of
        None \<Rightarrow> v
      | Some (parentFlag, parentPoint) \<Rightarrow>
          updateParentPoint h settings
            (case updateWaypoint h settings v parentPoint parentFlag of
               Inl e \<Rightarrow> v
             | Inr v' \<Rightarrow> v')
            (dirname (fst parentPoint)) False)"
  by pat_completeness auto
termination
proof (relation "measure (\<lambda>(h, settings, v, node, includeCurrentNode).
                    if includeCurrentNode then Suc (depth node) else depth node)", goal_cases)
  case 1
  show ?case by simp
next
  case (2 h settings v node includeCurrentNode found parentFlag parentPoint)
  then have "locateParentPoint settings v node includeCurrentNode
               = Some (parentFlag, fst parentPoint, snd parentPoint)" by simp
  from locateParentPoint_depth[OF this]
  show ?case by simp
qed

section \<open>Flag detection on a modify event\<close>

text \<open>
  \<^verbatim>\<open>detectFlag\<close> (main.ts 128-153). \<^verbatim>\<open>FolderNoteType.OutsideFolder\<close> is not a member of
  the enum, so the comparison that gives \<^verbatim>\<open>includeCurrentNode\<close> is false.
\<close>

fun detectFlag_loop ::
  "host \<Rightarrow> WaypointSettings \<Rightarrow> vault \<Rightarrow> string \<times> TFile \<Rightarrow> WaypointType \<Rightarrow> string list \<Rightarrow> error + vault" where
  "detectFlag_loop h settings v file flagType [] = Inr v"
| "detectFlag_loop h settings v file flagType (l # ls) =
     (if str_includes (getWaypointFlag settings flagType) (trim l) then
        (if isFolderNote settings v file then
           (case updateWaypoint h settings v file flagType of
              Inl e \<Rightarrow> Inl e
            | Inr v' \<Rightarrow> Inr (updateParentPoint h settings v' (dirname (fst file)) False))
         else if isRoot (dirname (fst file)) then
           Inr (printError settings v file (rootError flagType) flagType)
         else Inr (printError settings v file (notFolderNoteError flagType) flagType))
      else detectFlag_loop h settings v file flagType ls)"

definition detectFlag :: "host \<Rightarrow> WaypointSettings \<Rightarrow> vault \<Rightarrow> string \<times> TFile \<Rightarrow> WaypointType \<Rightarrow> error + vault" where
  "detectFlag h settings v file flagType =
     detectFlag_loop h settings v file flagType (lines_of (content (snd file)))"

section \<open>Concrete vaults\<close>

text \<open>
  Vaults for running the model: the folder \<^verbatim>\<open>Projects\<close> of the scenario with its folder
  note and two notes, and its rendered table; the same folder with three notes created at
  different times, with a note whose creation time is 0, and with a note whose creation
  time is no time value; a vault with one note in the
  root folder; a folder the default ignore pattern matches; three nested folders with
  their folder notes; a folder whose folder note has the override name \<^verbatim>\<open>index\<close>; a
  folder with a note named like the trigger flag.
  \<open>updateAt\<close> runs \<^verbatim>\<open>updateWaypoint\<close> on the file found at a path; \<open>linesAt\<close> reads the
  lines of a note.
\<close>

definition mdNote :: "string \<Rightarrow> int \<Rightarrow> string \<Rightarrow> TFile" where
  "mdNote bn ct txt = \<lparr> basename = bn, extension = ''md'', stat = \<lparr> ctime = ct \<rparr>, content = txt, frontmatter = None \<rparr>"

definition projectsVault :: "string \<Rightarrow> vault" where
  "projectsVault txt =
     [(''Projects'', AFolder),
      (''Projects/Projects.md'', AFile (mdNote ''Projects'' 50 txt)),
      (''Projects/Alpha.md'', AFile (mdNote ''Alpha'' 100 '''')),
      (''Projects/Beta.md'', AFile (mdNote ''Beta'' 200 ''''))]"

definition projectsTable :: string where
  "projectsTable = unlines
     [''# Projects'',
      ''[[Projects/new file.md'' @ [backslash] @ ''|new file]] | [[Projects/new folder/new folder.md''
         @ [backslash] @ ''|new folder]]'',
      '''',
      ''|TITLE|DATE|'',
      ''|---|---|'',
      ''|[[Projects/Beta.md'' @ [backslash] @ ''|Beta]]|1970-01-01 ('' @ convertDay 4 @ '')|'',
      ''|[[Projects/Alpha.md'' @ [backslash] @ ''|Alpha]]|1970-01-01 ('' @ convertDay 4 @ '')|'',
      '''']"




definition rootVault :: "string \<Rightarrow> string \<Rightarrow> vault" where
  "rootVault bn txt = [(bn @ ''.md'', AFile (mdNote bn 10 txt))]"

definition ignoredVault :: "string \<Rightarrow> vault" where
  "ignoredVault txt =
     [(''_attachments'', AFolder),
      (''_attachments/_attachments.md'', AFile (mdNote ''_attachments'' 50 txt)),
      (''_attachments/a.png'', AFile ((mdNote ''a'' 60 '''')\<lparr>extension := ''png''\<rparr>))]"

definition nestedVault :: vault where
  "nestedVault =
     [(''A'', AFolder),
      (''A/A.md'', AFile (mdNote ''A'' 1 ''%% Waypoint %%'')),
      (''A/B'', AFolder),
      (''A/B/B.md'', AFile (mdNote ''B'' 2 (unlines [''%% Begin Waypoint %%'', ''stale'', ''%% End Waypoint %%'']))),
      (''A/B/C'', AFolder),
      (''A/B/C/C.md'', AFile (mdNote ''C'' 3 ''%% Landmark %%'')),
      (''A/B/C/leaf.md'', AFile (mdNote ''leaf'' 4 ''text''))]"

definition indexVault :: vault where
  "indexVault =
     [(''Projects'', AFolder),
      (''Projects/index.md'', AFile (mdNote ''index'' 50
         (unlines [''%% Begin Waypoint %%'', ''stale'', ''%% End Waypoint %%'']))),
      (''Projects/Alpha.md'', AFile (mdNote ''Alpha'' 100 ''''))]"


definition linesAt :: "vault \<Rightarrow> string \<Rightarrow> string list" where
  "linesAt v p = (case getAbstractFileByPath v p of Some (AFile f) \<Rightarrow> lines_of (content f) | _ \<Rightarrow> [])"

definition updateAt :: "host \<Rightarrow> WaypointSettings \<Rightarrow> string \<Rightarrow> WaypointType \<Rightarrow> vault \<Rightarrow> vault" where
  "updateAt h settings p K v =
     (case getAbstractFileByPath v p of
        Some (AFile f) \<Rightarrow> (case updateWaypoint h settings v (p, f) K of Inr v' \<Rightarrow> v' | Inl e \<Rightarrow> v)
      | _ \<Rightarrow> v)"

section \<open>Words for the statements\<close>

text \<open>
  A start line of kind \<open>K\<close> is a line the bounds scan accepts as start: after trimming it
  holds the trigger flag or the begin delimiter. \<open>afterEnd\<close> is what follows the first
  line that is the end delimiter, or everything when there is none. \<open>plainBlock\<close> is the
  block as \<^verbatim>\<open>updateWaypoint\<close> first builds it, \<open>newBlock\<close> the block it writes, and
  \<open>calloutLabel\<close> the type label without its line break.
\<close>

definition isStartLine :: "string \<Rightarrow> string \<Rightarrow> string \<Rightarrow> bool" where
  "isStartLine flag beginW l = (str_includes flag (trim l) \<or> str_includes beginW (trim l))"

definition afterEnd :: "string \<Rightarrow> string list \<Rightarrow> string list" where
  "afterEnd endW post =
     (case dropWhile (\<lambda>x. trim x \<noteq> endW) post of [] \<Rightarrow> post | e # rest \<Rightarrow> rest)"

definition plainBlock :: "WaypointType \<Rightarrow> fileTreeValue \<Rightarrow> string" where
  "plainBlock K tree =
     fst (getWaypointBounds K) @ [newline] @ interpolate tree @ [newline, newline]
       @ snd (getWaypointBounds K)"

definition newBlock :: "WaypointType \<Rightarrow> bool \<Rightarrow> bool \<Rightarrow> fileTreeValue \<Rightarrow> string" where
  "newBlock K callout initial tree =
     (if callout then
        unlines (map (\<lambda>line. ''>'' @ line)
          (lines_of ((if initial then calloutPrefix K else '''') @ plainBlock K tree)))
      else plainBlock K tree)"

definition calloutLabel :: "WaypointType \<Rightarrow> string" where
  "calloutLabel K = (if K = Landmark then ''[!landmark]'' else ''[!waypoint]'')"







text \<open>
  The ancestor chain in the words of the specification: a folder, its parent, and so on
  up to the root. \<open>walkFrom\<close> is the chain \<^verbatim>\<open>locateParentPoint\<close> walks, \<open>regenerate\<close> one
  call of \<^verbatim>\<open>updateWaypoint\<close> as \<^verbatim>\<open>updateParentPoint\<close> makes it, its exception dropped.
\<close>

function ancestorsOrSelf :: "string \<Rightarrow> string list" where
  "ancestorsOrSelf folder =
     folder # (case parent folder of None \<Rightarrow> [] | Some p \<Rightarrow> ancestorsOrSelf p)"
  by pat_completeness auto
termination
  by (relation "measure depth") (auto simp: parent_def depth_dirname split: if_splits)

declare ancestorsOrSelf.simps [simp del]

definition walkFrom :: "string \<Rightarrow> bool \<Rightarrow> string list" where
  "walkFrom node includeCurrentNode =
     (case (if includeCurrentNode then Some node else parent node) of
        None \<Rightarrow> []
      | Some folder \<Rightarrow> ancestorsOrSelf folder)"

definition chainOf :: "string option \<Rightarrow> string list" where
  "chainOf start = (case start of None \<Rightarrow> [] | Some folder \<Rightarrow> ancestorsOrSelf folder)"

definition regenerate ::
  "host \<Rightarrow> WaypointSettings \<Rightarrow> vault \<Rightarrow> WaypointType \<times> string \<times> TFile \<Rightarrow> vault" where
  "regenerate h settings v found =
     (case updateWaypoint h settings v (snd found) (fst found) of Inl e \<Rightarrow> v | Inr v' \<Rightarrow> v')"

section \<open>Lines and substrings\<close>

lemma splitOn_nonempty: "splitOn c s \<noteq> []"
  by (induction s) (auto simp: Let_def)

lemma splitOn_append_sep: "splitOn c (a @ c # b) = splitOn c a @ splitOn c b"
proof (induction a)
  case Nil
  then show ?case by simp
next
  case (Cons x a)
  then show ?case using splitOn_nonempty[of c a] 
    by (cases "splitOn c a") (auto simp: Let_def)
qed

lemma splitOn_no_sep: "c \<notin> set s \<Longrightarrow> splitOn c s = [s]"
  by (induction s) (auto simp: Let_def)

lemma splitOn_pieces_no_sep: "x \<in> set (splitOn c s) \<Longrightarrow> c \<notin> set x"
proof (induction s arbitrary: x)
  case Nil
  then show ?case by simp
next
  case (Cons y s)
  show ?case
  proof (cases "y = c")
    case True
    then show ?thesis using Cons by auto
  next
    case False
    obtain r rs where r: "splitOn c s = r # rs" using splitOn_nonempty[of c s] by (cases "splitOn c s") auto
    then have "x = y # r \<or> x \<in> set rs" using Cons.prems False by (auto simp: Let_def)
    then show ?thesis using Cons.IH r False by auto
  qed
qed

lemma joinWith_Cons: "ys \<noteq> [] \<Longrightarrow> joinWith sep (x # ys) = x @ sep @ joinWith sep ys"
  by (cases ys) auto

lemma joinWith_splitOn: "joinWith [c] (splitOn c s) = s"
proof (induction s)
  case Nil
  then show ?case by simp
next
  case (Cons x s)
  obtain r rs where r: "splitOn c s = r # rs" using splitOn_nonempty[of c s] by (cases "splitOn c s") auto
  show ?case
  proof (cases "x = c")
    case True
    then show ?thesis using Cons r by (simp add: joinWith_Cons)
  next
    case False
    then show ?thesis using Cons r by (cases rs) (auto simp: Let_def)
  qed
qed

lemma splitOn_joinWith_flat:
  "ls \<noteq> [] \<Longrightarrow> splitOn c (joinWith [c] ls) = concat (map (splitOn c) ls)"
proof (induction ls)
  case Nil
  then show ?case by simp
next
  case (Cons x ls)
  show ?case
  proof (cases ls)
    case Nil
    then show ?thesis by simp
  next
    case (Cons y ys)
    then have "joinWith [c] (x # ls) = x @ c # joinWith [c] ls" by simp
    then show ?thesis using Cons.IH Cons by (simp add: splitOn_append_sep)
  qed
qed

lemma splitOn_joinWith_id:
  assumes "ls \<noteq> []" and "\<forall>x \<in> set ls. c \<notin> set x"
  shows "splitOn c (joinWith [c] ls) = ls"
proof -
  have "concat (map (splitOn c) ls) = concat (map (\<lambda>x. [x]) ls)"
    using assms(2) by (intro arg_cong[where f = concat] map_cong) (auto simp: splitOn_no_sep)
  then show ?thesis using splitOn_joinWith_flat[OF assms(1)] by simp
qed


section \<open>The bounds scan and the splice\<close>

lemma scanBounds_after:
  "waypointStart b \<noteq> None \<Longrightarrow>
   scanBounds flag beginW endW ls i b =
     (if \<exists>x \<in> set ls. trim x = endW
      then b\<lparr> waypointEnd := Some (i + length (takeWhile (\<lambda>x. trim x \<noteq> endW) ls)) \<rparr>
      else b)"
  by (induction ls arbitrary: i) (auto simp: Let_def)

lemma scanBounds_before:
  "waypointStart b = None \<Longrightarrow> \<forall>x \<in> set pre. \<not> isStartLine flag beginW x \<Longrightarrow>
   scanBounds flag beginW endW (pre @ rest) i b = scanBounds flag beginW endW rest (i + length pre) b"
  by (induction pre arbitrary: i) (auto simp: Let_def isStartLine_def)

lemma scanBounds_found:
  assumes "\<forall>x \<in> set pre. \<not> isStartLine flag beginW x" and "isStartLine flag beginW l"
  shows "scanBounds flag beginW endW (pre @ l # post) 0 noBounds =
     \<lparr> waypointStart = Some (length pre),
       waypointEnd = (if \<exists>x \<in> set post. trim x = endW
                      then Some (Suc (length pre) + length (takeWhile (\<lambda>x. trim x \<noteq> endW) post))
                      else None),
       isCallout = startsWith ''>'' (trim l),
       initialWaypoint = str_includes flag (trim l) \<rparr>"
proof -
  have "scanBounds flag beginW endW (pre @ l # post) 0 noBounds
          = scanBounds flag beginW endW (l # post) (length pre) noBounds"
    using scanBounds_before[of noBounds pre flag beginW endW "l # post" 0] assms(1)
    by (simp add: noBounds_def)
  also have "\<dots> = scanBounds flag beginW endW post (Suc (length pre))
                     (noBounds\<lparr> isCallout := startsWith ''>'' (trim l),
                               initialWaypoint := str_includes flag (trim l),
                               waypointStart := Some (length pre) \<rparr>)"
    using assms(2) by (simp add: Let_def isStartLine_def noBounds_def)
  finally show ?thesis
    by (simp add: scanBounds_after noBounds_def)
qed

lemma scanBounds_none:
  assumes "\<forall>x \<in> set ls. \<not> isStartLine flag beginW x"
  shows "scanBounds flag beginW endW ls 0 noBounds = noBounds"
  using scanBounds_before[of noBounds ls flag beginW endW "[]" 0] assms
  by (simp add: noBounds_def)

lemma splice_block:
  "splice (pre @ l # post) (length pre)
     (case (if \<exists>x \<in> set post. trim x = endW
            then Some (Suc (length pre) + length (takeWhile (\<lambda>x. trim x \<noteq> endW) post))
            else None) of Some e \<Rightarrow> e - length pre + 1 | None \<Rightarrow> 1) [w]
   = pre @ [w] @ afterEnd endW post"
proof (cases "\<exists>x \<in> set post. trim x = endW")
  case True
  let ?P = "\<lambda>x. trim x \<noteq> endW"
  have ne: "dropWhile ?P post \<noteq> []" using True by (auto simp: dropWhile_eq_Nil_conv)
  then obtain e rest where er: "dropWhile ?P post = e # rest" by (cases "dropWhile ?P post") auto
  have "drop (Suc (length (takeWhile ?P post))) post = tl (dropWhile ?P post)"
    by (metis drop_Suc dropWhile_eq_drop tl_drop)
  then show ?thesis using True er by (simp add: splice_def afterEnd_def)
next
  case False
  then have dw: "dropWhile (\<lambda>x. trim x \<noteq> endW) post = []" by (auto simp: dropWhile_eq_Nil_conv)
  have "afterEnd endW post = post" unfolding afterEnd_def dw by simp
  then show ?thesis using False by (simp add: splice_def)
qed

lemma updateWaypoint_char:
  assumes tree: "fileTreeFor h settings v file = Inr tree"
    and ls: "lines_of (content (snd file)) = pre @ l # post"
    and pre: "\<forall>x \<in> set pre. \<not> isStartLine (getWaypointFlag settings K) (fst (getWaypointBounds K)) x"
    and l: "isStartLine (getWaypointFlag settings K) (fst (getWaypointBounds K)) l"
  shows "updateWaypoint h settings v file K =
     Inr (modify v (fst file)
       (unlines (pre @ [newBlock K (startsWith ''>'' (trim l))
                          (str_includes (getWaypointFlag settings K) (trim l)) tree]
                   @ afterEnd (snd (getWaypointBounds K)) post)))"
proof -
  obtain bW eW where be: "getWaypointBounds K = (bW, eW)" by (cases "getWaypointBounds K")
  have sc: "scanBounds (getWaypointFlag settings K) bW eW (pre @ l # post) 0 noBounds =
     \<lparr> waypointStart = Some (length pre),
       waypointEnd = (if \<exists>x \<in> set post. trim x = eW
                      then Some (Suc (length pre) + length (takeWhile (\<lambda>x. trim x \<noteq> eW) post))
                      else None),
       isCallout = startsWith ''>'' (trim l),
       initialWaypoint = str_includes (getWaypointFlag settings K) (trim l) \<rparr>"
    using scanBounds_found[of pre "getWaypointFlag settings K" bW l eW post] pre l be by simp
  show ?thesis
    unfolding updateWaypoint_def tree ls be
    by (simp add: sc Let_def splice_block[of pre l post eW] newBlock_def plainBlock_def be
             del: scanBounds.simps)
qed

lemma updateWaypoint_no_start:
  assumes tree: "fileTreeFor h settings v file = Inr tree"
    and none: "\<forall>x \<in> set (lines_of (content (snd file))).
                 \<not> isStartLine (getWaypointFlag settings K) (fst (getWaypointBounds K)) x"
  shows "updateWaypoint h settings v file K = Inr v"
proof -
  obtain bW eW where be: "getWaypointBounds K = (bW, eW)" by (cases "getWaypointBounds K")
  show ?thesis
    unfolding updateWaypoint_def tree be
    using scanBounds_none[of "lines_of (content (snd file))" "getWaypointFlag settings K" bW eW] none be
    by (simp add: Let_def noBounds_def)
qed

lemma map_of_modify:
  "map_of (modify v p t) q =
     (if q = p then (case map_of v p of
                       Some (AFile f) \<Rightarrow> Some (AFile (f\<lparr>content := t\<rparr>))
                     | other \<Rightarrow> other)
      else map_of v q)"
proof (induction v)
  case Nil
  then show ?case by (simp add: modify_def)
next
  case (Cons e v)
  obtain a n where e: "e = (a, n)" by (cases e)
  have "modify (e # v) p t =
          (if a = p then (a, case n of AFile f \<Rightarrow> AFile (f\<lparr>content := t\<rparr>) | AFolder \<Rightarrow> AFolder)
           else (a, n)) # modify v p t"
    by (simp add: modify_def e)
  then show ?case using Cons e by (cases n) auto
qed

lemma afterEnd_subset: "set (afterEnd endW post) \<subseteq> set post"
proof (cases "dropWhile (\<lambda>x. trim x \<noteq> endW) post")
  case Nil
  show ?thesis unfolding afterEnd_def Nil by simp
next
  case (Cons e rest)
  have "set (e # rest) \<subseteq> set post"
    using set_dropWhileD[of _ "\<lambda>x. trim x \<noteq> endW" post] Cons by auto
  then show ?thesis unfolding afterEnd_def Cons by simp
qed

lemma lines_of_spliced:
  assumes "\<forall>x \<in> set pre. newline \<notin> set x" and "\<forall>x \<in> set rest. newline \<notin> set x"
  shows "lines_of (unlines (pre @ [block] @ rest)) = pre @ lines_of block @ rest"
proof -
  have one: "\<And>xs. \<forall>x \<in> set xs. newline \<notin> set x \<Longrightarrow> concat (map lines_of xs) = xs"
  proof -
    fix xs :: "string list"
    assume "\<forall>x \<in> set xs. newline \<notin> set x"
    then show "concat (map lines_of xs) = xs"
      by (induction xs) (simp_all add: splitOn_no_sep)
  qed
  have "lines_of (unlines (pre @ [block] @ rest)) = concat (map lines_of (pre @ [block] @ rest))"
    by (rule splitOn_joinWith_flat) simp
  then show ?thesis using one[OF assms(1)] one[OF assms(2)] by simp
qed

lemma linesAt_modify:
  assumes "getAbstractFileByPath v p = Some (AFile f)"
  shows "linesAt (modify v p t) p = lines_of t"
  using assms by (simp add: linesAt_def getAbstractFileByPath_def map_of_modify)

lemma linesAt_modify_other:
  assumes "q \<noteq> p"
  shows "linesAt (modify v p t) q = linesAt v q"
  using assms by (simp add: linesAt_def getAbstractFileByPath_def map_of_modify)

lemma spliced_read_back:
  assumes "getAbstractFileByPath v (fst file) = Some (AFile (snd file))"
    and "lines_of (content (snd file)) = pre @ l # post"
  shows "linesAt (modify v (fst file) (unlines (pre @ [block] @ afterEnd endW post))) (fst file)
           = pre @ lines_of block @ afterEnd endW post"
proof -
  have all: "\<forall>x \<in> set (pre @ l # post). newline \<notin> set x"
    using splitOn_pieces_no_sep[of _ newline "content (snd file)"] assms(2) by metis
  have p: "\<forall>x \<in> set pre. newline \<notin> set x" using all by simp
  have r: "\<forall>x \<in> set (afterEnd endW post). newline \<notin> set x"
    using all afterEnd_subset[of endW post] by auto
  show ?thesis using linesAt_modify[OF assms(1)] lines_of_spliced[OF p r] by simp
qed

section \<open>The placement guard\<close>

lemma printError_scan_none:
  "\<forall>x \<in> set ls. \<not> str_includes flag (trim x) \<Longrightarrow> printError_scan flag ls i acc = acc"
  by (induction ls arbitrary: i acc) auto

lemma printError_scan_append:
  "printError_scan flag (pre @ rest) i acc =
     printError_scan flag rest (i + length pre) (printError_scan flag pre i acc)"
  by (induction pre arbitrary: i acc) auto

lemma printError_scan_last:
  assumes "str_includes flag (trim l)" and "\<forall>x \<in> set post. \<not> str_includes flag (trim x)"
  shows "printError_scan flag (pre @ l # post) 0 acc = Some (length pre)"
  using assms by (simp add: printError_scan_append printError_scan_none)

lemma printError_last:
  assumes "lines_of (content (snd file)) = pre @ l # post"
    and "str_includes (getWaypointFlag settings K) (trim l)"
    and "\<forall>x \<in> set post. \<not> str_includes (getWaypointFlag settings K) (trim x)"
  shows "printError settings v file err K = modify v (fst file) (unlines (pre @ err # post))"
  using assms printError_scan_last[of "getWaypointFlag settings K" l post pre None]
  by (simp add: printError_def Let_def splice_def)

lemma detectFlag_loop_not_folderNote:
  assumes "\<not> isFolderNote settings v file"
    and "\<exists>l \<in> set ls. str_includes (getWaypointFlag settings K) (trim l)"
  shows "detectFlag_loop h settings v file K ls =
     Inr (printError settings v file
            (if isRoot (dirname (fst file)) then rootError K else notFolderNoteError K) K)"
  using assms
proof (induction ls)
  case Nil
  then show ?case by simp
next
  case (Cons a ls)
  show ?case
  proof (cases "str_includes (getWaypointFlag settings K) (trim a)")
    case True
    then show ?thesis using Cons.prems(1) by simp
  next
    case False
    then have "\<exists>l \<in> set ls. str_includes (getWaypointFlag settings K) (trim l)"
      using Cons.prems(2) by auto
    then show ?thesis using Cons.IH[OF Cons.prems(1)] False by simp
  qed
qed

lemma rootError_text:
  "rootError Waypoint = ''%% Error: Cannot create a waypoint in the root folder of your vault. For more information, check the instructions [here](https://github.com/IdreesInc/Waypoint) %%''"
  "rootError Landmark = ''%% Error: Cannot create a landmark in the root folder of your vault. For more information, check the instructions [here](https://github.com/IdreesInc/Waypoint) %%''"
  by (simp_all add: rootError_def typeName_def)

text \<open>
  A note in the vault root that is not a folder note and has a line holding the trigger
  flag of kind \<open>K\<close>: \<^verbatim>\<open>detectFlag\<close> generates no table and runs nothing else for the
  note. It returns the vault in which one line of the note is replaced by the error comment
  of the root folder, which names the kind. The replaced line is the last line holding the
  flag, whatever line the scan of \<^verbatim>\<open>detectFlag\<close> stopped at.
\<close>

lemma detectFlag_root_last_flag_line:
  assumes "\<not> isFolderNote settings v file"
    and "isRoot (dirname (fst file))"
    and "\<exists>l \<in> set (lines_of (content (snd file))). str_includes (getWaypointFlag settings K) (trim l)"
  shows "\<exists>pre l post.
           lines_of (content (snd file)) = pre @ l # post
           \<and> str_includes (getWaypointFlag settings K) (trim l)
           \<and> (\<forall>x \<in> set post. \<not> str_includes (getWaypointFlag settings K) (trim x))
           \<and> detectFlag h settings v file K
                 = Inr (modify v (fst file) (unlines (pre @ rootError K # post)))"
proof -
  obtain pre l post where d: "lines_of (content (snd file)) = pre @ l # post"
    "str_includes (getWaypointFlag settings K) (trim l)"
    "\<forall>x \<in> set post. \<not> str_includes (getWaypointFlag settings K) (trim x)"
    using split_list_last_prop[OF assms(3)] by blast
  have "detectFlag h settings v file K = Inr (printError settings v file (rootError K) K)"
    unfolding detectFlag_def
    using detectFlag_loop_not_folderNote[OF assms(1) assms(3), of h] assms(2) by simp
  then have "detectFlag h settings v file K
               = Inr (modify v (fst file) (unlines (pre @ rootError K # post)))"
    using printError_last[OF d] by simp
  then show ?thesis using d by blast
qed

text \<open>
  C5. A note of the root folder that is no folder note, with the Landmark flag on its
  first and on its third line. \<^verbatim>\<open>detectFlag\<close> stops at the first line and generates no
  table, and an error comment with the word \<^verbatim>\<open>landmark\<close> is written; but it is written
  over the third line, and the line the scan stopped at is left as it was.
\<close>

theorem detectFlag_root_error_on_last_flag:
  "\<not> isFolderNote DEFAULT_SETTINGS
        (rootVault ''Inbox'' (unlines [''%% Landmark %%'', ''notes'', ''%% Landmark %%'']))
        (''Inbox.md'', mdNote ''Inbox'' 10 (unlines [''%% Landmark %%'', ''notes'', ''%% Landmark %%'']))
   \<and> isRoot (dirname ''Inbox.md'')
   \<and> detectFlag testHost DEFAULT_SETTINGS
        (rootVault ''Inbox'' (unlines [''%% Landmark %%'', ''notes'', ''%% Landmark %%'']))
        (''Inbox.md'', mdNote ''Inbox'' 10 (unlines [''%% Landmark %%'', ''notes'', ''%% Landmark %%'']))
        Landmark
      = Inr (rootVault ''Inbox'' (unlines
          [''%% Landmark %%'', ''notes'',
           ''%% Error: Cannot create a landmark in the root folder of your vault. For more information, check the instructions [here](https://github.com/IdreesInc/Waypoint) %%'']))"
  by code_simp

text \<open>
  C6. The bounds scan of \<^verbatim>\<open>updateWaypoint\<close> takes the first start line
  (\<open>scanBounds_found\<close>). \<^verbatim>\<open>printError\<close> does not: in a root note whose first and third
  lines are the flag, the error comment replaces the third line and the first flag line
  stays.
\<close>

theorem printError_last_occurrence:
  "detectFlag testHost DEFAULT_SETTINGS
      (rootVault ''Inbox'' (unlines [''%% Waypoint %%'', ''text'', ''%% Waypoint %%'']))
      (''Inbox.md'', mdNote ''Inbox'' 10 (unlines [''%% Waypoint %%'', ''text'', ''%% Waypoint %%'']))
      Waypoint
   = Inr (rootVault ''Inbox'' (unlines [''%% Waypoint %%'', ''text'', rootError Waypoint]))"
  by code_simp

section \<open>Folder notes in the root folder\<close>

text \<open>
  C9. With the override name \<^verbatim>\<open>index\<close> configured, the note \<^verbatim>\<open>index.md\<close> of the root
  folder is a folder note for \<^verbatim>\<open>isFolderNote\<close>.
\<close>

theorem isFolderNote_root_override:
  "isRoot (dirname ''index.md'')
   \<and> isFolderNote (DEFAULT_SETTINGS\<lparr>folderNoteName := ''index''\<rparr>)
        (rootVault ''index'' ''%% Waypoint %%'')
        (''index.md'', mdNote ''index'' 10 ''%% Waypoint %%'')"
  by code_simp

text \<open>
  Without an override name a root note with a non-empty base name is no folder note, and
  the walk finds no folder note for the root when no path of the vault begins with a
  slash.
\<close>

lemma name_of_root: "name_of ''/'' = ''''"
  by (simp add: name_of_def)

lemma isFolderNote_root_plain:
  assumes "folderNoteType settings = InsideFolder" and "folderNoteName settings = ''''"
    and "isRoot (dirname (fst file))" and "basename (snd file) \<noteq> ''''"
  shows "\<not> isFolderNote settings v file"
  using assms by (simp add: isFolderNote_def isRoot_def name_of_root)

lemma pointAt_root:
  assumes "\<forall>p \<in> fst ` set v. \<not> startsWith ''/'' p"
  shows "pointAt settings v ''/'' = None"
proof (cases "folderNoteType settings = InsideFolder")
  case True
  have "map_of v ''//.md'' = None"
  proof (rule ccontr)
    assume "map_of v ''//.md'' \<noteq> None"
    then obtain y where "map_of v ''//.md'' = Some y" by blast
    from map_of_SomeD[OF this] have "''//.md'' \<in> fst ` set v" by (rule image_eqI[rotated]) simp
    then have "\<not> startsWith ''/'' ''//.md''" using assms by blast
    then show False by (simp add: startsWith_def)
  qed
  then show ?thesis using True
    by (simp add: pointAt_def folderNotePath_def name_of_root getAbstractFileByPath_def)
next
  case False
  then show ?thesis by (simp add: pointAt_def folderNotePath_def parent_def isRoot_def)
qed

section \<open>Properties of the ignore filter\<close>

lemma ignorePath_forEach_char:
  "ignorePath_forEach h ps path found =
     (if \<exists>p \<in> set ps. p \<noteq> '''' \<and> regexp h p = None then Inl SyntaxError
      else Inr (found \<or> (\<exists>p \<in> set ps. p \<noteq> '''' \<and> (\<exists>r. regexp h p = Some r \<and> r path))))"
  by (induction ps arbitrary: found) (auto split: option.splits)

text \<open>
  C4 (as the code has it). When every non-empty pattern compiles, \<open>ignorePath\<close> returns
  true exactly when the path matches a non-empty pattern, and empty patterns are
  skipped. A non-empty pattern that does not compile is not treated as non-matching:
  the call raises the SyntaxError, whatever the other patterns are.
\<close>

theorem ignorePath_contract:
  "ignorePath h settings path =
     (if \<exists>p \<in> set (ignorePaths settings). p \<noteq> '''' \<and> regexp h p = None
      then Inl SyntaxError
      else Inr (\<exists>p \<in> set (ignorePaths settings).
                  p \<noteq> '''' \<and> (\<exists>r. regexp h p = Some r \<and> r path)))"
  by (simp add: ignorePath_def ignorePath_forEach_char)

theorem ignorePath_contract_witness:
  "ignorePath testHost (DEFAULT_SETTINGS\<lparr>ignorePaths := ['''', ''_attachments'']\<rparr>)
     ''Projects/_attachments/a.png'' = Inr True
   \<and> ignorePath testHost (DEFAULT_SETTINGS\<lparr>ignorePaths := ['''', ''_attachments'']\<rparr>)
     ''Projects/Alpha.md'' = Inr False"
  using ignorePath_contract [of testHost "DEFAULT_SETTINGS\<lparr>ignorePaths := ['''', ''_attachments'']\<rparr>"
      "''Projects/_attachments/a.png''"]
    ignorePath_contract [of testHost "DEFAULT_SETTINGS\<lparr>ignorePaths := ['''', ''_attachments'']\<rparr>"
      "''Projects/Alpha.md''"]
  by (simp add: DEFAULT_SETTINGS_def testHost_def literalRegExp_def backslash_def startsWith_def)

text \<open>
  C4 (as stated) fails: with the single pattern \<^verbatim>\<open>(\<close>, which does not compile, the call
  does not return false, it raises.
\<close>

theorem ignorePath_malformed_counterexample:
  "ignorePath testHost (DEFAULT_SETTINGS\<lparr>ignorePaths := [''('']\<rparr>) ''Projects/Alpha.md''
     = Inl SyntaxError"
  by (simp add: ignorePath_def DEFAULT_SETTINGS_def testHost_def literalRegExp_def)

section \<open>The block written by the index updater\<close>

lemma newline_not_gt: "newline \<noteq> CHR ''>''"
  by (simp add: newline_def)

lemma bounds_single_line:
  "newline \<notin> set (fst (getWaypointBounds K))" "newline \<notin> set (snd (getWaypointBounds K))"
  by (cases K; simp add: getWaypointBounds_def BEGIN_WAYPOINT_def END_WAYPOINT_def
        BEGIN_LANDMARK_def END_LANDMARK_def newline_def)+

lemma calloutPrefix_label: "calloutPrefix K = calloutLabel K @ [newline]"
  by (simp add: calloutPrefix_def calloutLabel_def)

lemma calloutLabel_single_line: "newline \<notin> set (calloutLabel K)"
  by (simp add: calloutLabel_def newline_def)

lemma lines_of_prefixed:
  assumes "newline \<notin> set p"
  shows "lines_of (unlines (map ((@) p) (lines_of w))) = map ((@) p) (lines_of w)"
proof (rule splitOn_joinWith_id)
  show "map ((@) p) (lines_of w) \<noteq> []" using splitOn_nonempty by simp
  show "\<forall>x \<in> set (map ((@) p) (lines_of w)). newline \<notin> set x"
    using splitOn_pieces_no_sep[of _ newline w] assms by auto
qed

lemma newBlock_callout_lines:
  "lines_of (newBlock K True initial tree) =
     (if initial then [''>'' @ calloutLabel K] else []) @
     map ((@) ''>'') (lines_of (plainBlock K tree))"
proof -
  have gt: "newline \<notin> set ''>''" by (simp add: newline_def)
  have nb: "newBlock K True initial tree =
      unlines (map ((@) ''>'') (lines_of ((if initial then calloutPrefix K else []) @ plainBlock K tree)))"
    by (simp only: newBlock_def if_True)
  have ls: "lines_of (newBlock K True initial tree) =
      map ((@) ''>'') (lines_of ((if initial then calloutPrefix K else []) @ plainBlock K tree))"
    by (simp only: nb lines_of_prefixed[OF gt])
  show ?thesis
  proof (cases initial)
    case True
    have "lines_of (calloutPrefix K @ plainBlock K tree)
            = lines_of (calloutLabel K) @ lines_of (plainBlock K tree)"
      using splitOn_append_sep[of newline "calloutLabel K" "plainBlock K tree"]
      by (simp add: calloutPrefix_label)
    also have "lines_of (calloutLabel K) = [calloutLabel K]"
      using splitOn_no_sep[OF calloutLabel_single_line] .
    finally have sp: "lines_of (calloutPrefix K @ plainBlock K tree)
                        = calloutLabel K # lines_of (plainBlock K tree)" by simp
    show ?thesis unfolding ls by (simp only: True if_True sp list.map append_Cons append_Nil)
  next
    case False
    show ?thesis unfolding ls by (simp only: False if_False append_Nil)
  qed
qed

lemma plainBlock_lines:
  "lines_of (plainBlock K tree) =
     fst (getWaypointBounds K) # lines_of (interpolate tree) @ ['''', snd (getWaypointBounds K)]"
proof -
  let ?b = "fst (getWaypointBounds K)" and ?e = "snd (getWaypointBounds K)"
  have "plainBlock K tree = ?b @ newline # ((interpolate tree @ newline # []) @ newline # ?e)"
    by (simp add: plainBlock_def)
  then have "lines_of (plainBlock K tree) =
       lines_of ?b @ lines_of ((interpolate tree @ newline # []) @ newline # ?e)"
    using splitOn_append_sep[of newline ?b] by simp
  also have "lines_of ((interpolate tree @ newline # []) @ newline # ?e)
       = lines_of (interpolate tree @ newline # []) @ lines_of ?e"
    using splitOn_append_sep[of newline "interpolate tree @ newline # []" ?e] by simp
  also have "lines_of (interpolate tree @ newline # []) = lines_of (interpolate tree) @ ['''']"
    using splitOn_append_sep[of newline "interpolate tree" "[]"] by simp
  finally show ?thesis
    using splitOn_no_sep[OF bounds_single_line(1), of K] splitOn_no_sep[OF bounds_single_line(2), of K]
    by simp
qed

text \<open>
  C7 (as the code has it). Let the first start line of the note be \<open>l\<close>. When \<open>l\<close> begins
  with \<^verbatim>\<open>>\<close> after trimming, the lines of the new block are the lines of the plain block
  (begin delimiter, rendered table, empty line, end delimiter), each prefixed with \<^verbatim>\<open>>\<close>,
  and before them, when \<open>l\<close> holds the raw trigger flag, the one-line type label, prefixed
  too. When \<open>l\<close> does not begin with \<^verbatim>\<open>>\<close> the new block is the plain block: no label
  is added, first generation or not.
\<close>

theorem updateWaypoint_label_and_callout:
  assumes "fileTreeFor h settings v file = Inr tree"
    and "lines_of (content (snd file)) = pre @ l # post"
    and "\<forall>x \<in> set pre. \<not> isStartLine (getWaypointFlag settings K) (fst (getWaypointBounds K)) x"
    and "isStartLine (getWaypointFlag settings K) (fst (getWaypointBounds K)) l"
  shows "\<exists>block.
           updateWaypoint h settings v file K =
             Inr (modify v (fst file)
                    (unlines (pre @ [block] @ afterEnd (snd (getWaypointBounds K)) post)))
           \<and> (startsWith ''>'' (trim l) \<longrightarrow>
                lines_of block =
                  (if str_includes (getWaypointFlag settings K) (trim l)
                   then [''>'' @ calloutLabel K] else [])
                  @ map ((@) ''>'') (lines_of (plainBlock K tree))
                \<and> (\<forall>x \<in> set (lines_of block). startsWith ''>'' x))
           \<and> (\<not> startsWith ''>'' (trim l) \<longrightarrow> block = plainBlock K tree)"
proof -
  let ?block = "newBlock K (startsWith ''>'' (trim l))
                  (str_includes (getWaypointFlag settings K) (trim l)) tree"
  have u: "updateWaypoint h settings v file K =
             Inr (modify v (fst file)
                    (unlines (pre @ [?block] @ afterEnd (snd (getWaypointBounds K)) post)))"
    using updateWaypoint_char[OF assms] .
  have c: "startsWith ''>'' (trim l) \<Longrightarrow>
             lines_of ?block =
               (if str_includes (getWaypointFlag settings K) (trim l)
                then [''>'' @ calloutLabel K] else [])
               @ map ((@) ''>'') (lines_of (plainBlock K tree))"
    using newBlock_callout_lines[of K "str_includes (getWaypointFlag settings K) (trim l)" tree]
    by (simp only:)
  have p: "startsWith ''>'' (trim l) \<Longrightarrow> \<forall>x \<in> set (lines_of ?block). startsWith ''>'' x"
    using c by (auto simp: startsWith_def)
  have n: "\<not> startsWith ''>'' (trim l) \<Longrightarrow> ?block = plainBlock K tree"
    by (simp add: newBlock_def)
  show ?thesis using u c p n by blast
qed

lemma projects_fileTree:
  "fileTreeFor testHost DEFAULT_SETTINGS (projectsVault ''> %% Waypoint %%'')
     (''Projects/Projects.md'', mdNote ''Projects'' 50 ''> %% Waypoint %%'')
   = Inr (TreeString projectsTable)"
  by code_simp

theorem updateWaypoint_label_and_callout_witness:
  "fileTreeFor testHost DEFAULT_SETTINGS (projectsVault ''> %% Waypoint %%'')
     (''Projects/Projects.md'', mdNote ''Projects'' 50 ''> %% Waypoint %%'')
     = Inr (TreeString projectsTable)
   \<and> isStartLine (getWaypointFlag DEFAULT_SETTINGS Waypoint) (fst (getWaypointBounds Waypoint))
       ''> %% Waypoint %%''
   \<and> startsWith ''>'' (trim ''> %% Waypoint %%'')
   \<and> (\<exists>block.
        updateWaypoint testHost DEFAULT_SETTINGS (projectsVault ''> %% Waypoint %%'')
          (''Projects/Projects.md'', mdNote ''Projects'' 50 ''> %% Waypoint %%'') Waypoint
          = Inr (projectsVault block)
        \<and> lines_of block =
            ''>[!waypoint]'' # map ((@) ''>'') (lines_of (plainBlock Waypoint (TreeString projectsTable))))"
proof -
  let ?v = "projectsVault ''> %% Waypoint %%''"
  let ?f = "(''Projects/Projects.md'', mdNote ''Projects'' 50 ''> %% Waypoint %%'')"
  have ls: "lines_of (content (snd ?f)) = [] @ ''> %% Waypoint %%'' # []" by code_simp
  have pre: "\<forall>x \<in> set []. \<not> isStartLine (getWaypointFlag DEFAULT_SETTINGS Waypoint)
                                  (fst (getWaypointBounds Waypoint)) x" by simp
  have l: "isStartLine (getWaypointFlag DEFAULT_SETTINGS Waypoint) (fst (getWaypointBounds Waypoint))
             ''> %% Waypoint %%''" by code_simp
  have c: "startsWith ''>'' (trim ''> %% Waypoint %%'')" by code_simp
  have i: "str_includes (getWaypointFlag DEFAULT_SETTINGS Waypoint) (trim ''> %% Waypoint %%'')"
    by code_simp
  have m: "\<And>t. modify ?v ''Projects/Projects.md'' t = projectsVault t"
    by (simp add: modify_def projectsVault_def mdNote_def)
  obtain block where
    u: "updateWaypoint testHost DEFAULT_SETTINGS ?v ?f Waypoint =
          Inr (modify ?v (fst ?f) (unlines ([] @ [block] @ afterEnd (snd (getWaypointBounds Waypoint)) [])))"
    and b: "startsWith ''>'' (trim ''> %% Waypoint %%'') \<longrightarrow>
              lines_of block =
                (if str_includes (getWaypointFlag DEFAULT_SETTINGS Waypoint) (trim ''> %% Waypoint %%'')
                 then [''>'' @ calloutLabel Waypoint] else [])
                @ map ((@) ''>'') (lines_of (plainBlock Waypoint (TreeString projectsTable)))
              \<and> (\<forall>x \<in> set (lines_of block). startsWith ''>'' x)"
    using updateWaypoint_label_and_callout[OF projects_fileTree ls pre l] by blast
  have "updateWaypoint testHost DEFAULT_SETTINGS ?v ?f Waypoint = Inr (projectsVault block)"
    using u by (simp add: m afterEnd_def)
  moreover have "lines_of block =
      ''>[!waypoint]'' # map ((@) ''>'') (lines_of (plainBlock Waypoint (TreeString projectsTable)))"
    using b c i by (simp add: calloutLabel_def)
  ultimately show ?thesis using projects_fileTree l c by blast
qed

text \<open>
  C7 (as stated) fails: the folder note of the scenario holds the raw trigger flag and no
  callout; the text written begins with the begin delimiter and the table, no type label.
\<close>

theorem updateWaypoint_plain_flag_counterexample:
  "updateWaypoint testHost DEFAULT_SETTINGS (projectsVault ''%% Waypoint %%'')
     (''Projects/Projects.md'', mdNote ''Projects'' 50 ''%% Waypoint %%'') Waypoint
   = Inr (projectsVault (unlines [''%% Begin Waypoint %%'', projectsTable, '''', ''%% End Waypoint %%'']))"
  by code_simp

section \<open>An ignored render target\<close>

lemma getFileTreeRepresentation_ignored:
  "ignorePath h settings node = Inr True \<Longrightarrow>
   getFileTreeRepresentation h settings v rootNode node = Inr None"
  by (simp add: getFileTreeRepresentation_def)

lemma lines_of_null: "lines_of ''null'' = [''null'']"
  by (simp add: newline_def Let_def)

lemma ignorePath_matching:
  assumes "\<exists>p \<in> set (ignorePaths settings). p \<noteq> '''' \<and> (\<exists>r. regexp h p = Some r \<and> r path)"
    and "\<forall>p \<in> set (ignorePaths settings). p \<noteq> '''' \<longrightarrow> regexp h p \<noteq> None"
  shows "ignorePath h settings path = Inr True"
proof -
  have "\<not> (\<exists>p \<in> set (ignorePaths settings). p \<noteq> '''' \<and> regexp h p = None)"
    using assms(2) by blast
  then show ?thesis using assms(1) by (simp add: ignorePath_def ignorePath_forEach_char)
qed

text \<open>
  C10 (as the code has it). In inside mode the folder rendered for a folder note is the
  parent of the note. When its path matches a non-empty ignore pattern and every non-empty
  pattern compiles, \<^verbatim>\<open>getFileTreeRepresentation\<close> returns null and \<^verbatim>\<open>updateWaypoint\<close>
  does not abort: at the first start line of the note it splices a block whose lines are
  the begin delimiter, the word \<^verbatim>\<open>null\<close>, an empty line and the end delimiter (prefixed
  as a callout, with the label on first generation, when the start line is one), and the
  note read back from the vault has the lines before the start line, the lines of the
  block, and the lines after the old end line.
\<close>

theorem updateWaypoint_ignored_target_null:
  assumes "folderNoteType settings = InsideFolder"
    and "\<exists>p \<in> set (ignorePaths settings).
           p \<noteq> '''' \<and> (\<exists>r. regexp h p = Some r \<and> r (dirname (fst file)))"
    and "\<forall>p \<in> set (ignorePaths settings). p \<noteq> '''' \<longrightarrow> regexp h p \<noteq> None"
    and "getAbstractFileByPath v (fst file) = Some (AFile (snd file))"
    and "lines_of (content (snd file)) = pre @ l # post"
    and "\<forall>x \<in> set pre. \<not> isStartLine (getWaypointFlag settings K) (fst (getWaypointBounds K)) x"
    and "isStartLine (getWaypointFlag settings K) (fst (getWaypointBounds K)) l"
  shows "getFileTreeRepresentation h settings v (dirname (fst file)) (dirname (fst file)) = Inr None
         \<and> (\<exists>block v'.
               updateWaypoint h settings v file K = Inr v'
               \<and> linesAt v' (fst file)
                   = pre @ lines_of block @ afterEnd (snd (getWaypointBounds K)) post
               \<and> lines_of block =
                   (if startsWith ''>'' (trim l)
                    then (if str_includes (getWaypointFlag settings K) (trim l)
                          then [''>'' @ calloutLabel K] else [])
                         @ map ((@) ''>'')
                             [fst (getWaypointBounds K), ''null'', '''', snd (getWaypointBounds K)]
                    else [fst (getWaypointBounds K), ''null'', '''', snd (getWaypointBounds K)]))"
proof -
  have ig: "ignorePath h settings (dirname (fst file)) = Inr True"
    using ignorePath_matching[OF assms(2) assms(3)] .
  have g: "getFileTreeRepresentation h settings v (dirname (fst file)) (dirname (fst file)) = Inr None"
    using getFileTreeRepresentation_ignored[OF ig] .
  have t: "fileTreeFor h settings v file = Inr TreeNull"
    using assms(1) g by (simp add: fileTreeFor_def)
  let ?block = "newBlock K (startsWith ''>'' (trim l))
                  (str_includes (getWaypointFlag settings K) (trim l)) TreeNull"
  let ?v' = "modify v (fst file)
               (unlines (pre @ [?block] @ afterEnd (snd (getWaypointBounds K)) post))"
  have u: "updateWaypoint h settings v file K = Inr ?v'"
    using updateWaypoint_char[OF t assms(5) assms(6) assms(7)] .
  have rb: "linesAt ?v' (fst file) = pre @ lines_of ?block @ afterEnd (snd (getWaypointBounds K)) post"
    using spliced_read_back[OF assms(4) assms(5)] .
  have pl: "lines_of (plainBlock K TreeNull) =
              [fst (getWaypointBounds K), ''null'', '''', snd (getWaypointBounds K)]"
    using plainBlock_lines[of K TreeNull] lines_of_null by (simp add: interpolate_def)
  have b: "lines_of ?block =
             (if startsWith ''>'' (trim l)
              then (if str_includes (getWaypointFlag settings K) (trim l)
                    then [''>'' @ calloutLabel K] else [])
                   @ map ((@) ''>'')
                       [fst (getWaypointBounds K), ''null'', '''', snd (getWaypointBounds K)]
              else [fst (getWaypointBounds K), ''null'', '''', snd (getWaypointBounds K)])"
  proof (cases "startsWith ''>'' (trim l)")
    case True
    show ?thesis
      using newBlock_callout_lines[of K "str_includes (getWaypointFlag settings K) (trim l)" TreeNull]
      unfolding pl by (simp only: True if_True)
  next
    case False
    have "?block = plainBlock K TreeNull" using False by (simp add: newBlock_def)
    then show ?thesis using pl False by (simp only: if_False)
  qed
  show ?thesis using g u rb b by blast
qed

theorem updateWaypoint_ignored_target_null_witness:
  "folderNoteType DEFAULT_SETTINGS = InsideFolder
   \<and> (\<exists>r. regexp testHost ''_attachments'' = Some r \<and> r (dirname ''_attachments/_attachments.md''))
   \<and> regexp testHost ''_attachments'' \<noteq> None
   \<and> getAbstractFileByPath (ignoredVault (unlines [''Attachments'', ''%% Waypoint %%'', ''tail'']))
        ''_attachments/_attachments.md''
       = Some (AFile (mdNote ''_attachments'' 50 (unlines [''Attachments'', ''%% Waypoint %%'', ''tail''])))
   \<and> isStartLine (getWaypointFlag DEFAULT_SETTINGS Waypoint) (fst (getWaypointBounds Waypoint))
        ''%% Waypoint %%''
   \<and> (\<exists>v'. updateWaypoint testHost DEFAULT_SETTINGS
               (ignoredVault (unlines [''Attachments'', ''%% Waypoint %%'', ''tail'']))
               (''_attachments/_attachments.md'',
                mdNote ''_attachments'' 50 (unlines [''Attachments'', ''%% Waypoint %%'', ''tail''])) Waypoint
             = Inr v'
           \<and> linesAt v' ''_attachments/_attachments.md''
               = [''Attachments'', ''%% Begin Waypoint %%'', ''null'', '''', ''%% End Waypoint %%'', ''tail''])"
proof -
  let ?txt = "unlines [''Attachments'', ''%% Waypoint %%'', ''tail'']"
  let ?v = "ignoredVault ?txt"
  let ?f = "(''_attachments/_attachments.md'', mdNote ''_attachments'' 50 ?txt)"
  have h1: "folderNoteType DEFAULT_SETTINGS = InsideFolder" by (simp add: DEFAULT_SETTINGS_def)
  have re: "regexp testHost ''_attachments'' = Some (\<lambda>path. str_includes ''_attachments'' path)"
    by (simp add: testHost_def literalRegExp_def backslash_def)
  have d: "dirname (fst ?f) = ''_attachments''" by code_simp
  have inc: "str_includes ''_attachments'' ''_attachments''" by code_simp
  have m: "\<exists>r. regexp testHost ''_attachments'' = Some r \<and> r (dirname (fst ?f))"
    unfolding d re using inc by simp
  have h2: "\<exists>p \<in> set (ignorePaths DEFAULT_SETTINGS).
              p \<noteq> '''' \<and> (\<exists>r. regexp testHost p = Some r \<and> r (dirname (fst ?f)))"
    using m by (simp add: DEFAULT_SETTINGS_def)
  have h3: "\<forall>p \<in> set (ignorePaths DEFAULT_SETTINGS). p \<noteq> '''' \<longrightarrow> regexp testHost p \<noteq> None"
    using re by (simp add: DEFAULT_SETTINGS_def)
  have h4: "getAbstractFileByPath ?v (fst ?f) = Some (AFile (snd ?f))" by code_simp
  have h5: "lines_of (content (snd ?f)) = [''Attachments''] @ ''%% Waypoint %%'' # [''tail'']" by code_simp
  have h6: "\<forall>x \<in> set [''Attachments''].
              \<not> isStartLine (getWaypointFlag DEFAULT_SETTINGS Waypoint) (fst (getWaypointBounds Waypoint)) x"
    by code_simp
  have h7: "isStartLine (getWaypointFlag DEFAULT_SETTINGS Waypoint) (fst (getWaypointBounds Waypoint))
              ''%% Waypoint %%''" by code_simp
  have c: "\<not> startsWith ''>'' (trim ''%% Waypoint %%'')" by code_simp
  have ae: "afterEnd (snd (getWaypointBounds Waypoint)) [''tail''] = [''tail'']" by code_simp
  obtain block v' where
    u: "updateWaypoint testHost DEFAULT_SETTINGS ?v ?f Waypoint = Inr v'"
    and rb: "linesAt v' (fst ?f)
               = [''Attachments''] @ lines_of block @ afterEnd (snd (getWaypointBounds Waypoint)) [''tail'']"
    and b: "lines_of block =
              (if startsWith ''>'' (trim ''%% Waypoint %%'')
               then (if str_includes (getWaypointFlag DEFAULT_SETTINGS Waypoint) (trim ''%% Waypoint %%'')
                     then [''>'' @ calloutLabel Waypoint] else [])
                    @ map ((@) ''>'')
                        [fst (getWaypointBounds Waypoint), ''null'', '''', snd (getWaypointBounds Waypoint)]
               else [fst (getWaypointBounds Waypoint), ''null'', '''', snd (getWaypointBounds Waypoint)])"
    using updateWaypoint_ignored_target_null[OF h1 h2 h3 h4 h5 h6 h7] by blast
  have bl: "lines_of block = [''%% Begin Waypoint %%'', ''null'', '''', ''%% End Waypoint %%'']"
    using b c by (simp add: getWaypointBounds_def BEGIN_WAYPOINT_def END_WAYPOINT_def)
  have "linesAt v' ''_attachments/_attachments.md''
          = [''Attachments'', ''%% Begin Waypoint %%'', ''null'', '''', ''%% End Waypoint %%'', ''tail'']"
    using rb unfolding bl ae by simp
  then have e: "\<exists>v'. updateWaypoint testHost DEFAULT_SETTINGS ?v ?f Waypoint = Inr v'
           \<and> linesAt v' ''_attachments/_attachments.md''
               = [''Attachments'', ''%% Begin Waypoint %%'', ''null'', '''', ''%% End Waypoint %%'', ''tail'']"
    using u by blast
  have m': "\<exists>r. regexp testHost ''_attachments'' = Some r \<and> r (dirname ''_attachments/_attachments.md'')"
    using m by simp
  have nn: "regexp testHost ''_attachments'' \<noteq> None" using re by simp
  have h4': "getAbstractFileByPath ?v ''_attachments/_attachments.md'' = Some (AFile (mdNote ''_attachments'' 50 ?txt))"
    using h4 by simp
  show ?thesis
    apply (intro conjI)
         apply (rule h1)
        apply (rule m')
       apply (rule nn)
      apply (rule h4')
     apply (rule h7)
    apply (rule e)
    done
qed

text \<open>
  C10 (as stated) fails: the path of the folder matches the non-empty pattern
  \<^verbatim>\<open>_attachments\<close>, and with the pattern \<^verbatim>\<open>(\<close>, which does not compile, beside it
  \<^verbatim>\<open>updateWaypoint\<close> aborts with the SyntaxError.
\<close>

theorem updateWaypoint_ignored_target_malformed_counterexample:
  "ignorePath testHost (DEFAULT_SETTINGS\<lparr>ignorePaths := [''_attachments'']\<rparr>)
      (dirname ''_attachments/_attachments.md'') = Inr True
   \<and> updateWaypoint testHost (DEFAULT_SETTINGS\<lparr>ignorePaths := [''_attachments'', ''('']\<rparr>)
        (ignoredVault ''%% Waypoint %%'')
        (''_attachments/_attachments.md'', mdNote ''_attachments'' 50 ''%% Waypoint %%'') Waypoint
      = Inl SyntaxError"
  by code_simp

section \<open>Regenerating twice\<close>

text \<open>
  C1. A folder note whose index block is a callout: begin delimiter, one old row and end
  delimiter, each after \<^verbatim>\<open>>\<close>. The end line of a callout is never equal to the end
  delimiter, so each pass replaces the begin line alone and leaves the old rows behind it:
  the note has 3 lines, 13 after the first pass and 23 after the second.
\<close>

theorem updateWaypoint_callout_block_grows:
  "linesAt (projectsVault (unlines [''>%% Begin Waypoint %%'', ''>old row'', ''>%% End Waypoint %%'']))
     ''Projects/Projects.md''
     = [''>%% Begin Waypoint %%'', ''>old row'', ''>%% End Waypoint %%'']
   \<and> length (linesAt (updateAt testHost DEFAULT_SETTINGS ''Projects/Projects.md'' Waypoint
        (projectsVault (unlines [''>%% Begin Waypoint %%'', ''>old row'', ''>%% End Waypoint %%''])))
        ''Projects/Projects.md'') = 13
   \<and> length (linesAt (updateAt testHost DEFAULT_SETTINGS ''Projects/Projects.md'' Waypoint
        (updateAt testHost DEFAULT_SETTINGS ''Projects/Projects.md'' Waypoint
        (projectsVault (unlines [''>%% Begin Waypoint %%'', ''>old row'', ''>%% End Waypoint %%'']))))
        ''Projects/Projects.md'') = 23"
  by code_simp

section \<open>The order of the rows\<close>






lemma filterChildren_folderNote:
  "filterChildren h settings v cs filtered folderNote = Inr (rows, fn) \<Longrightarrow>
   fn = folderNote
   \<or> (\<exists>p f. fn = Some (p, f) \<and> (p, AFile f) \<in> set cs \<and> isFolderNote settings v (p, f))"
proof (induction cs arbitrary: filtered folderNote)
  case Nil
  then show ?case by simp
next
  case (Cons child cs)
  show ?case
  proof (cases "ignorePath h settings (fst child)")
    case (Inl e)
    then show ?thesis using Cons.prems by simp
  next
    case (Inr ignored)
    show ?thesis
    proof (cases ignored)
      case True
      then have "filterChildren h settings v cs filtered folderNote = Inr (rows, fn)"
        using Cons.prems Inr by simp
      from Cons.IH[OF this] show ?thesis by auto
    next
      case False
      show ?thesis
      proof (cases "snd child")
        case AFolder
        then have "filterChildren h settings v cs (filtered @ [child]) folderNote = Inr (rows, fn)"
          using Cons.prems Inr False by simp
        from Cons.IH[OF this] show ?thesis by auto
      next
        case (AFile f)
        then have c: "child = (fst child, AFile f)" by (cases child) simp
        show ?thesis
        proof (cases "isFolderNote settings v (fst child, f)")
          case nf: False
          then have "filterChildren h settings v cs (filtered @ [child]) folderNote = Inr (rows, fn)"
            using Cons.prems Inr False AFile by simp
          from Cons.IH[OF this] show ?thesis by auto
        next
          case isf: True
          have "\<exists>acc. filterChildren h settings v cs acc (Some (fst child, f)) = Inr (rows, fn)"
            using Cons.prems Inr False AFile isf by (cases "showFolderNotes settings") auto
          then obtain acc where
            "filterChildren h settings v cs acc (Some (fst child, f)) = Inr (rows, fn)" by blast
          from Cons.IH[OF this]
          have "fn = Some (fst child, f)
                \<or> (\<exists>p f. fn = Some (p, f) \<and> (p, AFile f) \<in> set cs \<and> isFolderNote settings v (p, f))" .
          then show ?thesis
          proof
            assume "fn = Some (fst child, f)"
            moreover have "(fst child, AFile f) \<in> set (child # cs)" using c by simp
            ultimately show ?thesis using isf by blast
          next
            assume "\<exists>p f. fn = Some (p, f) \<and> (p, AFile f) \<in> set cs \<and> isFolderNote settings v (p, f)"
            then show ?thesis by auto
          qed
        qed
      qed
    qed
  qed
qed





















section \<open>Propagation along the ancestor chain\<close>

lemma chainOf_Some: "chainOf (Some folder) = folder # chainOf (parent folder)"
  by (subst chainOf_def) (simp add: ancestorsOrSelf.simps[of folder] chainOf_def)

lemma chainOf_None: "chainOf None = []"
  by (simp add: chainOf_def)

lemma walkFrom_chainOf:
  "walkFrom node includeCurrentNode = chainOf (if includeCurrentNode then Some node else parent node)"
  by (simp add: walkFrom_def chainOf_def)

lemma chainOf_depth: "g \<in> set (chainOf start) \<Longrightarrow> \<exists>f. start = Some f \<and> depth g \<le> depth f"
proof (induction "case start of None \<Rightarrow> 0 | Some p \<Rightarrow> Suc (depth p)" arbitrary: start rule: less_induct)
  case less
  show ?case
  proof (cases start)
    case None
    then show ?thesis using less.prems by (simp add: chainOf_None)
  next
    case (Some f)
    then have "g = f \<or> g \<in> set (chainOf (parent f))" using less.prems by (simp add: chainOf_Some)
    then show ?thesis
    proof
      assume "g = f"
      then show ?thesis using Some by simp
    next
      assume g: "g \<in> set (chainOf (parent f))"
      show ?thesis
      proof (cases "parent f")
        case None
        then show ?thesis using g by (simp add: chainOf_None)
      next
        case (Some p)
        then have d: "depth p < depth f"
          using depth_dirname[of f] by (auto simp: parent_def split: if_splits)
        have "\<exists>f'. parent f = Some f' \<and> depth g \<le> depth f'"
          using less.hyps[of "parent f"] g d Some \<open>start = Some f\<close> by simp
        then show ?thesis using d Some \<open>start = Some f\<close> by auto
      qed
    qed
  qed
qed

lemma locateParentPoint_loop_first:
  "locateParentPoint_loop settings v start =
     (case List.map_filter (pointAt settings v) (chainOf start) of [] \<Rightarrow> None | x # xs \<Rightarrow> Some x)"
proof (induction settings v start rule: locateParentPoint_loop.induct)
  case (1 settings v)
  then show ?case by (simp add: chainOf_None map_filter_simps)
next
  case (2 settings v folder)
  then show ?case
    by (cases "pointAt settings v folder") (simp_all add: chainOf_Some map_filter_simps)
qed

lemma locateParentPoint_loop_rest:
  "folderNoteType settings = InsideFolder \<Longrightarrow>
   locateParentPoint_loop settings v start = Some (K, p, f) \<Longrightarrow>
         List.map_filter (pointAt settings v) (chainOf start)
           = (K, p, f) # List.map_filter (pointAt settings v) (chainOf (parent (dirname p)))"
proof (induction settings v start rule: locateParentPoint_loop.induct)
  case (1 settings v)
  then show ?case by simp
next
  case (2 settings v folder)
  show ?case
  proof (cases "pointAt settings v folder")
    case None
    then show ?thesis using 2 by (simp add: chainOf_Some map_filter_simps)
  next
    case (Some found)
    then have found: "pointAt settings v folder = Some (K, p, f)" using "2.prems"(2) by simp
    define n where "n = name_of folder @ ''.md''"
    have ns: "CHR ''/'' \<notin> set n" using name_of_no_slash[of folder] by (simp add: n_def)
    have "folderNotePath settings folder = Some p" using pointAt_path[OF found] .
    then have "p = folder @ ''/'' @ n"
      using "2.prems"(1) by (simp add: folderNotePath_def n_def)
    then have "dirname p = folder" using dirname_append[OF ns, of folder] by simp
    then show ?thesis using found by (simp add: chainOf_Some map_filter_simps)
  qed
qed

lemma updateWaypoint_shape:
  assumes "updateWaypoint h settings v file K = Inr v'"
  shows "v' = v \<or> (\<exists>t. v' = modify v (fst file) t)"
proof (cases "fileTreeFor h settings v file")
  case (Inl e)
  then show ?thesis using assms by (simp add: updateWaypoint_def)
next
  case (Inr tree)
  obtain bW eW where be: "getWaypointBounds K = (bW, eW)" by (cases "getWaypointBounds K")
  show ?thesis
  proof (cases "waypointStart (scanBounds (getWaypointFlag settings K) bW eW
                   (lines_of (content (snd file))) 0 noBounds)")
    case None
    then show ?thesis using assms Inr be by (simp add: updateWaypoint_def Let_def)
  next
    case (Some start)
    then show ?thesis using assms Inr be by (auto simp: updateWaypoint_def Let_def)
  qed
qed

lemma regenerate_lookup:
  assumes "q \<noteq> fst (snd found)"
  shows "getAbstractFileByPath (regenerate h settings v found) q = getAbstractFileByPath v q"
proof (cases "updateWaypoint h settings v (snd found) (fst found)")
  case (Inl e)
  then show ?thesis by (simp add: regenerate_def)
next
  case (Inr v')
  then have r: "regenerate h settings v found = v'" by (simp add: regenerate_def)
  from updateWaypoint_shape[OF Inr] show ?thesis
  proof
    assume "v' = v"
    then show ?thesis using r by simp
  next
    assume "\<exists>t. v' = modify v (fst (snd found)) t"
    then obtain t where "v' = modify v (fst (snd found)) t" by blast
    then show ?thesis using r assms by (simp add: getAbstractFileByPath_def map_of_modify)
  qed
qed

lemma pointAt_regenerate:
  assumes "folderNotePath settings g \<noteq> Some (fst (snd found))"
  shows "pointAt settings (regenerate h settings v found) g = pointAt settings v g"
proof (cases "folderNotePath settings g")
  case None
  then show ?thesis by (simp add: pointAt_def)
next
  case (Some q)
  then have "q \<noteq> fst (snd found)" using assms by simp
  from regenerate_lookup[OF this] show ?thesis using Some by (simp add: pointAt_def)
qed

lemma folderNotePath_inside_dirname:
  assumes "folderNoteType settings = InsideFolder" and "folderNotePath settings g = Some q"
  shows "dirname q = g"
proof -
  define n where "n = name_of g @ ''.md''"
  have ns: "CHR ''/'' \<notin> set n" using name_of_no_slash[of g] by (simp add: n_def)
  have "q = g @ ''/'' @ n" using assms by (simp add: folderNotePath_def n_def)
  then show ?thesis using dirname_append[OF ns, of g] by simp
qed

declare updateParentPoint.simps [simp del]

lemma map_filter_cong_set:
  "(\<And>x. x \<in> set xs \<Longrightarrow> f x = g x) \<Longrightarrow> List.map_filter f xs = List.map_filter g xs"
  by (induction xs) (auto simp: map_filter_simps split: option.splits)

lemma chain_above_unchanged:
  assumes inside: "folderNoteType settings = InsideFolder"
  shows "List.map_filter (pointAt settings (regenerate h settings v (K, p, f)))
             (chainOf (parent (dirname p)))
         = List.map_filter (pointAt settings v) (chainOf (parent (dirname p)))"
proof -
  have "\<And>g. g \<in> set (chainOf (parent (dirname p))) \<Longrightarrow>
          pointAt settings (regenerate h settings v (K, p, f)) g = pointAt settings v g"
  proof -
    fix g assume g: "g \<in> set (chainOf (parent (dirname p)))"
    then obtain f' where f': "parent (dirname p) = Some f'" "depth g \<le> depth f'"
      using chainOf_depth by blast
    then have "depth f' < depth (dirname p)"
      using depth_dirname[of "dirname p"] by (auto simp: parent_def split: if_splits)
    then have ne: "g \<noteq> dirname p" using f' by auto
    have "folderNotePath settings g \<noteq> Some p"
    proof
      assume "folderNotePath settings g = Some p"
      from folderNotePath_inside_dirname[OF inside this] show False using ne by simp
    qed
    then show "pointAt settings (regenerate h settings v (K, p, f)) g = pointAt settings v g"
      using pointAt_regenerate[of settings g "(K, p, f)" h v] by simp
  qed
  then show ?thesis by (rule map_filter_cong_set)
qed

lemma updateParentPoint_fold:
  "folderNoteType settings = InsideFolder \<Longrightarrow>
   updateParentPoint h settings v node includeCurrentNode
     = foldl (regenerate h settings) v
         (List.map_filter (pointAt settings v) (walkFrom node includeCurrentNode))"
proof (induction h settings v node includeCurrentNode rule: updateParentPoint.induct)
  case (1 h settings v node includeCurrentNode)
  let ?start = "if includeCurrentNode then Some node else parent node"
  show ?case
  proof (cases "locateParentPoint settings v node includeCurrentNode")
    case None
    then have "List.map_filter (pointAt settings v) (chainOf ?start) = []"
      using locateParentPoint_loop_first[of settings v ?start]
      by (cases "List.map_filter (pointAt settings v) (chainOf ?start)")
         (simp_all add: locateParentPoint_def)
    then show ?thesis using None
      by (subst updateParentPoint.simps) (simp add: walkFrom_chainOf)
  next
    case (Some found)
    obtain K p f where found: "found = (K, p, f)" by (cases found)
    have loc: "locateParentPoint_loop settings v ?start = Some (K, p, f)"
      using Some found by (simp add: locateParentPoint_def)
    have list: "List.map_filter (pointAt settings v) (chainOf ?start)
                  = (K, p, f) # List.map_filter (pointAt settings v) (chainOf (parent (dirname p)))"
      using locateParentPoint_loop_rest[OF "1.prems" loc] .
    let ?v1 = "regenerate h settings v (K, p, f)"
    have v1: "(case updateWaypoint h settings v (p, f) K of Inl e \<Rightarrow> v | Inr v' \<Rightarrow> v') = ?v1"
      by (simp add: regenerate_def)
    have step: "updateParentPoint h settings v node includeCurrentNode
                  = updateParentPoint h settings ?v1 (dirname p) False"
      using Some found by (subst updateParentPoint.simps) (simp add: v1)
    have ih: "updateParentPoint h settings ?v1 (dirname p) False
                = foldl (regenerate h settings) ?v1
                    (List.map_filter (pointAt settings ?v1) (walkFrom (dirname p) False))"
      using "1.IH"[OF Some, of K "(p, f)"] found "1.prems" unfolding v1 by simp
    have "List.map_filter (pointAt settings ?v1) (walkFrom (dirname p) False)
            = List.map_filter (pointAt settings v) (chainOf (parent (dirname p)))"
      using chain_above_unchanged[OF "1.prems"] by (simp add: walkFrom_chainOf)
    then show ?thesis using step ih list by (simp add: walkFrom_chainOf)
  qed
qed

lemma chainOf_length: "length (chainOf start) \<le> (case start of None \<Rightarrow> 0 | Some f \<Rightarrow> Suc (depth f))"
proof (induction "case start of None \<Rightarrow> 0 | Some p \<Rightarrow> Suc (depth p)" arbitrary: start rule: less_induct)
  case less
  show ?case
  proof (cases start)
    case None
    then show ?thesis by (simp add: chainOf_None)
  next
    case (Some f)
    show ?thesis
    proof (cases "parent f")
      case None
      then show ?thesis using Some by (simp add: chainOf_Some chainOf_None)
    next
      case (Some p)
      then have d: "depth p < depth f"
        using depth_dirname[of f] by (auto simp: parent_def split: if_splits)
      have "length (chainOf (parent f)) \<le> Suc (depth p)"
        using less.hyps[of "parent f"] d Some \<open>start = Some f\<close> by simp
      then show ?thesis using d \<open>start = Some f\<close> by (simp add: chainOf_Some)
    qed
  qed
qed

lemma walkFrom_length: "length (walkFrom node includeCurrentNode) \<le> Suc (depth node)"
proof (cases includeCurrentNode)
  case True
  then show ?thesis using chainOf_length[of "Some node"] by (simp add: walkFrom_chainOf)
next
  case False
  show ?thesis
  proof (cases "parent node")
    case None
    then show ?thesis using False by (simp add: walkFrom_chainOf chainOf_None)
  next
    case (Some p)
    then have "depth p < depth node"
      using depth_dirname[of node] by (auto simp: parent_def split: if_splits)
    then show ?thesis using chainOf_length[of "Some p"] False Some by (simp add: walkFrom_chainOf)
  qed
qed

text \<open>
  \<^verbatim>\<open>updateParentPoint\<close> is a total function: its recursion was accepted with the measure
  "depth of the folder the walk starts at", which falls at every call because the note found
  lives in a folder of the walk and the next walk starts above it. In inside mode the result
  is the vault after \<^verbatim>\<open>updateWaypoint\<close> has been run, from the bottom up, on the note
  \<^verbatim>\<open><folder>/<folder name>.md\<close> of every folder of the walk (the start folder, its
  parent, and so on up to the root) that exists and holds a marker, and on nothing else;
  these are at most depth + 1 notes. A call of \<^verbatim>\<open>updateWaypoint\<close> that raises leaves the
  vault as it is (\<open>regenerate\<close>). When the walk finds no marker the vault is returned as it
  is. Below it is run on three nested folders.
\<close>

lemma updateParentPoint_walk:
  assumes "folderNoteType settings = InsideFolder"
  shows "updateParentPoint h settings v node includeCurrentNode
           = foldl (regenerate h settings) v
               (List.map_filter (pointAt settings v) (walkFrom node includeCurrentNode))
         \<and> length (List.map_filter (pointAt settings v) (walkFrom node includeCurrentNode))
             \<le> Suc (depth node)
         \<and> (locateParentPoint settings v node includeCurrentNode = None
              \<longrightarrow> updateParentPoint h settings v node includeCurrentNode = v)"
proof -
  have "length (List.map_filter (pointAt settings v) (walkFrom node includeCurrentNode))
          \<le> length (walkFrom node includeCurrentNode)"
    by (simp add: List.map_filter_def)
  then have "length (List.map_filter (pointAt settings v) (walkFrom node includeCurrentNode))
          \<le> Suc (depth node)"
    using walkFrom_length[of node includeCurrentNode] by simp
  moreover have "locateParentPoint settings v node includeCurrentNode = None
              \<longrightarrow> updateParentPoint h settings v node includeCurrentNode = v"
    by (subst updateParentPoint.simps) simp
  ultimately show ?thesis using updateParentPoint_fold[OF assms] by simp
qed

lemma updateParentPoint_walk_nested:
  "folderNoteType DEFAULT_SETTINGS = InsideFolder
   \<and> map (\<lambda>found. (fst found, fst (snd found)))
         (List.map_filter (pointAt DEFAULT_SETTINGS nestedVault) (walkFrom ''A/B/C'' True))
       = [(Landmark, ''A/B/C/C.md''), (Waypoint, ''A/B/B.md''), (Waypoint, ''A/A.md'')]
   \<and> updateParentPoint testHost DEFAULT_SETTINGS nestedVault ''A/B/C'' True
       = foldl (regenerate testHost DEFAULT_SETTINGS) nestedVault
           (List.map_filter (pointAt DEFAULT_SETTINGS nestedVault) (walkFrom ''A/B/C'' True))
   \<and> map (\<lambda>p. take 2 (linesAt (updateParentPoint testHost DEFAULT_SETTINGS nestedVault ''A/B/C'' True) p))
         [''A/B/C/C.md'', ''A/B/B.md'', ''A/A.md'']
       = [[''%% Begin Landmark %%'', ''# C''], [''%% Begin Waypoint %%'', ''# B''],
          [''%% Begin Waypoint %%'', ''# A'']]"
proof -
  have h: "folderNoteType DEFAULT_SETTINGS = InsideFolder" by (simp add: DEFAULT_SETTINGS_def)
  have m: "map (\<lambda>found. (fst found, fst (snd found)))
         (List.map_filter (pointAt DEFAULT_SETTINGS nestedVault) (walkFrom ''A/B/C'' True))
       = [(Landmark, ''A/B/C/C.md''), (Waypoint, ''A/B/B.md''), (Waypoint, ''A/A.md'')]"
    by code_simp
  have e: "map (\<lambda>p. take 2 (linesAt (updateParentPoint testHost DEFAULT_SETTINGS nestedVault ''A/B/C'' True) p))
         [''A/B/C/C.md'', ''A/B/B.md'', ''A/A.md'']
       = [[''%% Begin Landmark %%'', ''# C''], [''%% Begin Waypoint %%'', ''# B''],
          [''%% Begin Waypoint %%'', ''# A'']]"
    by code_simp
  have u: "updateParentPoint testHost DEFAULT_SETTINGS nestedVault ''A/B/C'' True
       = foldl (regenerate testHost DEFAULT_SETTINGS) nestedVault
           (List.map_filter (pointAt DEFAULT_SETTINGS nestedVault) (walkFrom ''A/B/C'' True))"
    using updateParentPoint_walk[OF h, of testHost nestedVault "''A/B/C''" True]
    by (rule conjunct1)
  show ?thesis
    apply (intro conjI)
       apply (rule h)
      apply (rule m)
     apply (rule u)
    apply (rule e)
    done
qed

text \<open>
  C8. With the override name \<^verbatim>\<open>index\<close> configured, the folder note of \<^verbatim>\<open>Projects\<close> is
  \<^verbatim>\<open>Projects/index.md\<close> for \<^verbatim>\<open>isFolderNote\<close>, and it holds an index block. The walk
  looks for \<^verbatim>\<open>Projects/Projects.md\<close> and finds nothing: \<^verbatim>\<open>updateParentPoint\<close> returns
  the vault as it is, and the block keeps its stale row, while \<^verbatim>\<open>updateWaypoint\<close> run on
  that note writes the table of the folder.
\<close>

theorem updateParentPoint_override_note_skipped:
  "isFolderNote (DEFAULT_SETTINGS\<lparr>folderNoteName := ''index''\<rparr>) indexVault
      (''Projects/index.md'',
       mdNote ''index'' 50 (unlines [''%% Begin Waypoint %%'', ''stale'', ''%% End Waypoint %%'']))
   \<and> linesAt indexVault ''Projects/index.md''
       = [''%% Begin Waypoint %%'', ''stale'', ''%% End Waypoint %%'']
   \<and> locateParentPoint (DEFAULT_SETTINGS\<lparr>folderNoteName := ''index''\<rparr>) indexVault ''Projects'' True
       = None
   \<and> updateParentPoint testHost (DEFAULT_SETTINGS\<lparr>folderNoteName := ''index''\<rparr>) indexVault
        ''Projects'' True = indexVault
   \<and> linesAt (updateAt testHost (DEFAULT_SETTINGS\<lparr>folderNoteName := ''index''\<rparr>)
                 ''Projects/index.md'' Waypoint indexVault) ''Projects/index.md''
       = [''%% Begin Waypoint %%'',
          ''# Projects'',
          ''[[Projects/new file.md'' @ [backslash] @ ''|new file]] | [[Projects/new folder/new folder.md''
             @ [backslash] @ ''|new folder]]'',
          '''',
          ''|TITLE|DATE|'',
          ''|---|---|'',
          ''|[[Projects/Alpha.md'' @ [backslash] @ ''|Alpha]]|1970-01-01 ('' @ convertDay 4 @ '')|'',
          '''',
          '''',
          ''%% End Waypoint %%'']"
  by code_simp

section \<open>From the flag to one block\<close>






lemma str_includes_empty: "str_includes sub '''' \<longleftrightarrow> sub = ''''"
  by simp






end
